theory Spec2Isabelle
  imports Main
begin

section \<open>Backup items and the restore map (constants/backup)\<close>

text \<open>
  \<^verbatim>\<open>BackupItem\<close> of the source: source path relative to the project root, destination
  path inside the backup, display label, the required flag and the optional file pattern.
\<close>

record BackupItem =
  src :: string
  dest :: string
  label :: string
  required :: bool
  pattern :: "string option"

definition mkItem :: "string \<Rightarrow> string \<Rightarrow> string \<Rightarrow> bool \<Rightarrow> string option \<Rightarrow> BackupItem" where
  "mkItem s d l r p = \<lparr>src = s, dest = d, label = l, required = r, pattern = p\<rparr>"

definition BACKUP_ITEMS :: "BackupItem list" where
  "BACKUP_ITEMS =
    [ mkItem ''src/content/blog'' ''content/blog'' ''Blog posts'' True None,
      mkItem ''config/site.yaml'' ''config/site.yaml'' ''Site configuration'' True None,
      mkItem ''src/pages'' ''pages'' ''Standalone pages'' True (Some ''*.md''),
      mkItem ''public/img'' ''img'' ''User images'' True None,
      mkItem ''.env'' ''env'' ''Environment variables'' True None,
      mkItem ''public/favicon.ico'' ''favicon.ico'' ''Favicon'' False None,
      mkItem ''src/assets/lqips.json'' ''assets/lqips.json'' ''LQIP data'' False None,
      mkItem ''src/assets/similarities.json'' ''assets/similarities.json'' ''Similarity data'' False None,
      mkItem ''src/assets/summaries.json'' ''assets/summaries.json'' ''AI summary data'' False None ]"

text \<open>
  \<^verbatim>\<open>Object.fromEntries\<close> writes the entries into a fresh object in order, so a later
  entry with the same key replaces an earlier one.
\<close>

fun fromEntries_acc :: "('k \<rightharpoonup> 'v) \<Rightarrow> ('k \<times> 'v) list \<Rightarrow> ('k \<rightharpoonup> 'v)" where
  "fromEntries_acc m [] = m"
| "fromEntries_acc m ((k, v) # es) = fromEntries_acc (m(k \<mapsto> v)) es"

definition fromEntries :: "('k \<times> 'v) list \<Rightarrow> ('k \<rightharpoonup> 'v)" where
  "fromEntries es = fromEntries_acc Map.empty es"

text \<open>\<^verbatim>\<open>RESTORE_MAP = Object.fromEntries(BACKUP_ITEMS.map((item) => [item.dest, item.src]))\<close>\<close>

definition RESTORE_MAP :: "string \<rightharpoonup> string" where
  "RESTORE_MAP = fromEntries (map (\<lambda>item. (dest item, src item)) BACKUP_ITEMS)"

section \<open>The restore screen (restore.tsx, component RestoreApp)\<close>

datatype RestoreStatus =
    Selecting
  | Confirming
  | Restoring
  | RestoreDone
  | RestoreError
  | Cancelled

record RestorePreviewItem =
  path :: string
  fileCount :: int

text \<open>An element of \<^verbatim>\<open>(RestorePreviewItem | string)[]\<close>.\<close>

datatype RestoredItem =
    PreviewItem RestorePreviewItem
  | RestoredPath string

record RestoreAppProps =
  initialBackupFile :: "string option"
  dryRun :: bool
  force :: bool
  showReturnHint :: bool

datatype RestoreCall =
    Call_getRestorePreview string
  | Call_restoreBackup string

text \<open>
  The \<^verbatim>\<open>useState\<close> cells of the component (\<open>manifest\<close> holds the parsed manifest, kept
  opaque), then whether an exit timer is pending, whether \<^verbatim>\<open>onComplete\<close> has been called
  and the operations of the backup module invoked so far.
\<close>

record RestoreApp =
  status :: RestoreStatus
  selectedBackup :: string
  restoredFiles :: "RestoredItem list"
  error :: string
  manifest :: "string option"
  restoreTimer :: bool
  restoreCompleted :: bool
  restoreCalls :: "RestoreCall list"

text \<open>
  What the imported operations return when called: \<^verbatim>\<open>getRestorePreview\<close> and
  \<^verbatim>\<open>restoreBackup\<close> throw (\<open>Inl\<close> the message) or return their list; \<open>readManifest\<close> is
  \<^verbatim>\<open>JSON.parse(tarExtractManifest(validateBackupFilePath(file)))\<close>, \<open>None\<close> when a step
  throws or there is no data; \<open>backups\<close> are the paths listed by \<^verbatim>\<open>getBackupList()\<close>.
\<close>

record RestoreWorld =
  getRestorePreview :: "string \<Rightarrow> string + RestorePreviewItem list"
  restoreBackup :: "string \<Rightarrow> string + string list"
  readManifest :: "string \<Rightarrow> string option"
  backups :: "string list"

datatype RestoreCmd =
    SetStatus RestoreStatus
  | SetSelectedBackup string
  | SetRestoredFiles "RestoredItem list"
  | SetError string
  | SetManifest string
  | RestoreInvoke RestoreCall
  | RestoreOnComplete
  | RestoreStartTimer

fun restoreExec :: "RestoreApp \<Rightarrow> RestoreCmd \<Rightarrow> RestoreApp" where
  "restoreExec app (SetStatus st) = app\<lparr>status := st\<rparr>"
| "restoreExec app (SetSelectedBackup b) = app\<lparr>selectedBackup := b\<rparr>"
| "restoreExec app (SetRestoredFiles fs) = app\<lparr>restoredFiles := fs\<rparr>"
| "restoreExec app (SetError e) = app\<lparr>error := e\<rparr>"
| "restoreExec app (SetManifest m) = app\<lparr>manifest := Some m\<rparr>"
| "restoreExec app (RestoreInvoke c) = app\<lparr>restoreCalls := restoreCalls app @ [c]\<rparr>"
| "restoreExec app RestoreOnComplete = app\<lparr>restoreCompleted := True\<rparr>"
| "restoreExec app RestoreStartTimer = app\<lparr>restoreTimer := True\<rparr>"

definition restoreExecAll :: "RestoreApp \<Rightarrow> RestoreCmd list \<Rightarrow> RestoreApp" where
  "restoreExecAll app cmds = foldl restoreExec app cmds"

definition scheduleExit :: "RestoreAppProps \<Rightarrow> RestoreCmd list" where
  "scheduleExit props = (if \<not> showReturnHint props then [RestoreStartTimer] else [])"

definition runDryRun :: "RestoreAppProps \<Rightarrow> RestoreWorld \<Rightarrow> string \<Rightarrow> RestoreCmd list" where
  "runDryRun props w selected =
    RestoreInvoke (Call_getRestorePreview selected) #
    (case getRestorePreview w selected of
       Inr previewFiles \<Rightarrow>
         [SetRestoredFiles (map PreviewItem previewFiles), SetStatus RestoreDone] @ scheduleExit props
     | Inl msg \<Rightarrow> [SetError msg, SetStatus RestoreError] @ scheduleExit props)"

definition runRestore :: "RestoreAppProps \<Rightarrow> RestoreWorld \<Rightarrow> string \<Rightarrow> RestoreCmd list" where
  "runRestore props w selected =
    [SetStatus Restoring, RestoreInvoke (Call_restoreBackup selected)] @
    (case restoreBackup w selected of
       Inr restored \<Rightarrow>
         [SetRestoredFiles (map RestoredPath restored), SetStatus RestoreDone] @ scheduleExit props
     | Inl msg \<Rightarrow> [SetError msg, SetStatus RestoreError] @ scheduleExit props)"

definition handleSelect :: "string \<Rightarrow> RestoreCmd list" where
  "handleSelect v =
    (if v = ''cancel'' then [RestoreOnComplete]
     else [SetSelectedBackup v, SetStatus Confirming])"

definition handleConfirm :: "RestoreAppProps \<Rightarrow> RestoreWorld \<Rightarrow> string \<Rightarrow> RestoreCmd list" where
  "handleConfirm props w selected =
    (if dryRun props then runDryRun props w selected else runRestore props w selected)"

definition handleCancel :: "RestoreAppProps \<Rightarrow> RestoreCmd list" where
  "handleCancel props = SetStatus Cancelled # scheduleExit props"

text \<open>The two effects of the component: reading the manifest, and the restore in force mode.\<close>

definition manifestEffect :: "RestoreWorld \<Rightarrow> RestoreApp \<Rightarrow> RestoreCmd list" where
  "manifestEffect w app =
    (if selectedBackup app \<noteq> [] \<and> manifest app = None
     then (case readManifest w (selectedBackup app) of None \<Rightarrow> [] | Some m \<Rightarrow> [SetManifest m])
     else [])"

definition forceEffect :: "RestoreAppProps \<Rightarrow> RestoreWorld \<Rightarrow> RestoreApp \<Rightarrow> RestoreCmd list" where
  "forceEffect props w app =
    (if force props \<and> selectedBackup app \<noteq> [] \<and> status app = Confirming
     then runRestore props w (selectedBackup app) else [])"

definition restoreEffects :: "RestoreAppProps \<Rightarrow> RestoreWorld \<Rightarrow> RestoreApp \<Rightarrow> RestoreApp" where
  "restoreEffects props w app =
    restoreExecAll app (manifestEffect w app @ forceEffect props w app)"

definition mountRestoreApp :: "RestoreAppProps \<Rightarrow> RestoreWorld \<Rightarrow> RestoreApp" where
  "mountRestoreApp props w =
    restoreEffects props w
      \<lparr> status = (case initialBackupFile props of
                    None \<Rightarrow> Selecting
                  | Some f \<Rightarrow> if f = [] then Selecting else Confirming),
        selectedBackup = (case initialBackupFile props of None \<Rightarrow> [] | Some f \<Rightarrow> f),
        restoredFiles = [], error = [], manifest = None,
        restoreTimer = False, restoreCompleted = False, restoreCalls = [] \<rparr>"

datatype RestoreEvent =
    PickBackup string
  | RestoreConfirmYes
  | RestoreConfirmNo
  | RestoreAnyKey
  | RestoreTimerFired

text \<open>
  The inputs on the screen: the list of backups while selecting (unless there is no
  backup), the confirmation prompt while confirming unless \<^verbatim>\<open>force\<close> is set, any key on
  the final screens when the return hint is shown.
\<close>

definition restoreHandler ::
  "RestoreAppProps \<Rightarrow> RestoreWorld \<Rightarrow> RestoreApp \<Rightarrow> RestoreEvent \<Rightarrow> RestoreCmd list option" where
  "restoreHandler props w app ev =
    (case ev of
       PickBackup v \<Rightarrow>
         if status app = Selecting \<and> backups w \<noteq> [] \<and> v \<in> set (backups w @ [''cancel''])
         then Some (handleSelect v) else None
     | RestoreConfirmYes \<Rightarrow>
         if status app = Confirming \<and> selectedBackup app \<noteq> [] \<and> \<not> force props
         then Some (handleConfirm props w (selectedBackup app)) else None
     | RestoreConfirmNo \<Rightarrow>
         if status app = Confirming \<and> selectedBackup app \<noteq> [] \<and> \<not> force props
         then Some (handleCancel props) else None
     | RestoreAnyKey \<Rightarrow>
         if (status app = RestoreDone \<or> status app = RestoreError \<or> status app = Cancelled)
            \<and> showReturnHint props
         then Some [RestoreOnComplete] else None
     | RestoreTimerFired \<Rightarrow>
         if restoreTimer app then Some [RestoreOnComplete] else None)"

definition restoreStep ::
  "RestoreAppProps \<Rightarrow> RestoreWorld \<Rightarrow> RestoreApp \<Rightarrow> RestoreEvent \<Rightarrow> RestoreApp option" where
  "restoreStep props w app ev =
    (if restoreCompleted app then None
     else case restoreHandler props w app ev of
            None \<Rightarrow> None
          | Some cmds \<Rightarrow> Some (restoreEffects props w (restoreExecAll app cmds)))"

text \<open>What the final screen says about the run.\<close>

definition doneTitle :: "RestoreAppProps \<Rightarrow> string" where
  "doneTitle props = (if dryRun props then ''Preview Mode'' else ''Restore complete'')"

definition doneNotice :: "RestoreAppProps \<Rightarrow> string option" where
  "doneNotice props =
    (if dryRun props then Some ''This is a preview, no files were modified.'' else None)"

section \<open>Update types (constants/update)\<close>

record CommitInfo =
  hash :: string
  message :: string
  date :: string
  author :: string

record GitStatusInfo =
  currentBranch :: string
  isClean :: bool
  uncommittedCount :: int
  uncommittedFiles :: "string list"

record UpdateInfo =
  hasUpstream :: bool
  behindCount :: int
  aheadCount :: int
  commits :: "CommitInfo list"
  localCommits :: "CommitInfo list"
  currentVersion :: string
  latestVersion :: string
  isDowngrade :: bool

text \<open>Optional fields (\<^verbatim>\<open>error?\<close>, \<^verbatim>\<open>isRebaseConflict?\<close>, ...) are options: \<open>None\<close> is \<^verbatim>\<open>undefined\<close>.\<close>

record MergeResult =
  success :: bool
  hasConflict :: bool
  conflictFiles :: "string list"
  error :: "string option"
  isRebaseConflict :: "bool option"
  autoResolvedFiles :: "string list option"
  preCleanSha :: "string option"

record ReleaseInfo =
  tagName :: string
  url :: string
  body :: "string option"

datatype UpdateStatus =
    Checking
  | DirtyWarning
  | BackupConfirm
  | BackingUp
  | Fetching
  | Preview
  | Merging
  | CleanRestoring
  | Installing
  | Done
  | Conflict
  | UpToDate
  | Error

record UpdateOptions =
  checkOnly :: bool
  skipBackup :: bool
  force :: bool
  targetTag :: "string option"
  rebase :: bool
  dryRun :: bool
  clean :: bool

record UpdateState =
  status :: UpdateStatus
  gitStatus :: "GitStatusInfo option"
  updateInfo :: "UpdateInfo option"
  mergeResult :: "MergeResult option"
  backupFile :: string
  error :: string
  branchWarning :: string
  options :: UpdateOptions
  needsMigration :: bool
  restoredFiles :: "string list"

datatype UpdateAction =
    GIT_CHECKED GitStatusInfo
  | FETCHED UpdateInfo "bool option"
  | BACKUP_CONFIRM
  | BACKUP_SKIP
  | BACKUP_DONE string
  | UPDATE_CONFIRM
  | MERGED MergeResult
  | CLEAN_RESTORED "string list"
  | INSTALLED
  | ERROR string

section \<open>The reducer (utils/update-reducer)\<close>

text \<open>
  Modelled from the spec: \<^verbatim>\<open>createInitialState\<close> of utils/update-reducer, which is not
  among the sources. The state is constructed once from the options, the machine starts
  in \<^verbatim>\<open>checking\<close>, and an empty \<^verbatim>\<open>backupFile\<close> means that no backup was taken.
\<close>

definition createInitialState :: "UpdateOptions \<Rightarrow> UpdateState" where
  "createInitialState opts =
    \<lparr> status = Checking, gitStatus = None, updateInfo = None, mergeResult = None,
      backupFile = [], error = [], branchWarning = [], options = opts,
      needsMigration = False, restoredFiles = [] \<rparr>"

text \<open>
  Modelled from the spec: \<^verbatim>\<open>updateReducer\<close> of utils/update-reducer, which is not among
  the sources. It follows the transition contract of the spec action by action; each
  action is accepted in the state the spec's state graph lets it leave
  (\<^verbatim>\<open>backup-confirm \<rightarrow> {backing-up, fetching}\<close>, \<^verbatim>\<open>backing-up \<rightarrow> {fetching, error}\<close>, ...),
  \<^verbatim>\<open>ERROR\<close> in every state, and an action arriving in another state leaves the state
  as it is. The spec does not say how \<^verbatim>\<open>branchWarning\<close> is computed; it is left alone.
\<close>

definition updateReducer :: "UpdateState \<Rightarrow> UpdateAction \<Rightarrow> UpdateState" where
  "updateReducer s a =
    (case a of
       ERROR msg \<Rightarrow> s\<lparr>status := Error, error := msg\<rparr>
     | GIT_CHECKED g \<Rightarrow>
         if status s \<noteq> Checking then s
         else if \<not> isClean g \<and> \<not> force (options s)
           then s\<lparr>status := DirtyWarning, gitStatus := Some g\<rparr>
         else if skipBackup (options s) \<and> \<not> rebase (options s) \<and> \<not> clean (options s)
           then s\<lparr>status := Fetching, gitStatus := Some g\<rparr>
         else s\<lparr>status := BackupConfirm, gitStatus := Some g\<rparr>
     | BACKUP_CONFIRM \<Rightarrow>
         if status s \<noteq> BackupConfirm then s else s\<lparr>status := BackingUp\<rparr>
     | BACKUP_SKIP \<Rightarrow>
         if status s \<noteq> BackupConfirm then s else s\<lparr>status := Fetching\<rparr>
     | BACKUP_DONE f \<Rightarrow>
         if status s \<noteq> BackingUp then s else s\<lparr>status := Fetching, backupFile := f\<rparr>
     | FETCHED u nm \<Rightarrow>
         if status s \<noteq> Fetching then s
         else if \<not> hasUpstream u \<or> (behindCount u = 0 \<and> aheadCount u = 0 \<and> \<not> isDowngrade u)
           then s\<lparr>status := UpToDate, updateInfo := Some u\<rparr>
         else s\<lparr>status := Preview, updateInfo := Some u,
                 needsMigration := (case nm of None \<Rightarrow> False | Some b \<Rightarrow> b)\<rparr>
     | UPDATE_CONFIRM \<Rightarrow>
         if status s \<noteq> Preview then s else s\<lparr>status := Merging\<rparr>
     | MERGED r \<Rightarrow>
         if status s \<noteq> Merging then s
         else if \<not> success r \<and> \<not> hasConflict r
           then s\<lparr>status := Error, mergeResult := Some r,
                   error := (case MergeResult.error r of None \<Rightarrow> [] | Some e \<Rightarrow> e)\<rparr>
         else if hasConflict r then s\<lparr>status := Conflict, mergeResult := Some r\<rparr>
         else if clean (options s) then s\<lparr>status := CleanRestoring, mergeResult := Some r\<rparr>
         else s\<lparr>status := Installing, mergeResult := Some r\<rparr>
     | CLEAN_RESTORED fs \<Rightarrow>
         if status s \<noteq> CleanRestoring then s
         else s\<lparr>status := Installing, restoredFiles := fs\<rparr>
     | INSTALLED \<Rightarrow>
         if status s \<noteq> Installing then s else s\<lparr>status := Done\<rparr>)"

text \<open>
  Modelled from the spec: \<^verbatim>\<open>statusEffects\<close> of utils/update-effects, the table from
  status to side effect, which is not among the sources. The spec's data flow gives the
  states that run an operation and the action that reports its result: the status check
  in \<^verbatim>\<open>checking\<close>, the fetch in \<^verbatim>\<open>fetching\<close>, merge or rebase in \<^verbatim>\<open>merging\<close>, the restore
  of user content in \<^verbatim>\<open>clean-restoring\<close>, the dependency install in \<^verbatim>\<open>installing\<close>; each
  may report \<^verbatim>\<open>ERROR\<close> instead. The other states wait for the user and have no effect.
\<close>

definition statusEffectMay :: "UpdateStatus \<Rightarrow> UpdateAction \<Rightarrow> bool" where
  "statusEffectMay st a =
    (case a of
       GIT_CHECKED g \<Rightarrow> st = Checking
     | FETCHED u nm \<Rightarrow> st = Fetching
     | MERGED r \<Rightarrow> st = Merging
     | CLEAN_RESTORED fs \<Rightarrow> st = CleanRestoring
     | INSTALLED \<Rightarrow> st = Installing
     | ERROR msg \<Rightarrow> st \<in> set [Checking, Fetching, Merging, CleanRestoring, Installing]
     | _ \<Rightarrow> False)"

section \<open>Conflict resolution policy and clean mode (utils/update-operations)\<close>

text \<open>
  Modelled from the spec: the ConflictResolutionPolicy of utils/update-operations, which
  is not among the sources. Its input is the list of conflicting files and the function
  that classifies a path as user content; a conflict is resolved automatically (keeping
  the local version) exactly when its path is user content, and every other conflict is
  left. The result is the pair of \<^verbatim>\<open>autoResolvedFiles\<close> and the remaining
  \<^verbatim>\<open>conflictFiles\<close>, each in the order of the input.
\<close>

definition resolveConflicts :: "(string \<Rightarrow> bool) \<Rightarrow> string list \<Rightarrow> string list \<times> string list" where
  "resolveConflicts isUserContent files =
    (filter isUserContent files, filter (\<lambda>f. \<not> isUserContent f) files)"

text \<open>
  Modelled from the spec: the merge result reported for a conflict after the policy ran,
  when conflicts remain (the operation is left in the tool's conflicted state).
\<close>

definition conflictResult :: "(string \<Rightarrow> bool) \<Rightarrow> bool \<Rightarrow> string list \<Rightarrow> MergeResult" where
  "conflictResult isUserContent isRebase files =
    \<lparr> success = False, hasConflict = True,
      conflictFiles = snd (resolveConflicts isUserContent files),
      error = None, isRebaseConflict = Some isRebase,
      autoResolvedFiles = Some (fst (resolveConflicts isUserContent files)),
      preCleanSha = None \<rparr>"

text \<open>
  Modelled from the spec: the operations of the VersionControlClient and of the
  BackupCollaborator that clean mode uses, over a repository of any type \<open>'r\<close>. Each
  returns a value or fails with an error (\<open>Inl\<close>); a failed restore may already have
  written files, so it returns the repository it left behind.
\<close>

record 'r Adapter =
  currentCommitSha :: "'r \<Rightarrow> string"
  replaceTree :: "'r \<Rightarrow> string + 'r"
  resetHard :: "string \<Rightarrow> 'r \<Rightarrow> string + 'r"
  restoreUserContent :: "string \<Rightarrow> 'r \<Rightarrow> (string \<times> 'r) + (string list \<times> 'r)"

text \<open>
  Modelled from the spec: the clean-mode step run in \<^verbatim>\<open>merging\<close>. It records the current
  commit as \<^verbatim>\<open>preCleanSha\<close>, then replaces the theme files by upstream's tree.
\<close>

definition cleanMerge :: "'r Adapter \<Rightarrow> 'r \<Rightarrow> 'r \<times> MergeResult" where
  "cleanMerge ad r =
    (let sha = currentCommitSha ad r
     in case replaceTree ad r of
          Inl e \<Rightarrow>
            (r, \<lparr> success = False, hasConflict = False, conflictFiles = [], error = Some e,
                  isRebaseConflict = None, autoResolvedFiles = None, preCleanSha = Some sha \<rparr>)
        | Inr r1 \<Rightarrow>
            (r1, \<lparr> success = True, hasConflict = False, conflictFiles = [], error = None,
                   isRebaseConflict = None, autoResolvedFiles = None, preCleanSha = Some sha \<rparr>))"

text \<open>
  Modelled from the spec: the step run in \<^verbatim>\<open>clean-restoring\<close>. It restores the user
  content from the backup; when that fails it resets the working tree to \<^verbatim>\<open>preCleanSha\<close>
  and then reports the error. The result is the repository left behind and the action
  dispatched.
\<close>

definition cleanRestore :: "'r Adapter \<Rightarrow> UpdateState \<Rightarrow> 'r \<Rightarrow> 'r \<times> UpdateAction" where
  "cleanRestore ad s r =
    (case restoreUserContent ad (backupFile s) r of
       Inr (files, r1) \<Rightarrow> (r1, CLEAN_RESTORED files)
     | Inl (e, r1) \<Rightarrow>
         (case mergeResult s of
            None \<Rightarrow> (r1, ERROR e)
          | Some m \<Rightarrow>
              (case preCleanSha m of
                 None \<Rightarrow> (r1, ERROR e)
               | Some sha \<Rightarrow>
                   (case resetHard ad sha r1 of
                      Inr r2 \<Rightarrow> (r2, ERROR e)
                    | Inl e2 \<Rightarrow> (r1, ERROR (e @ '': '' @ e2))))))"

section \<open>The update screen (update.tsx, component UpdateApp)\<close>

text \<open>
  The component holds the reducer state and two \<^verbatim>\<open>useState\<close> cells. The model adds what
  the component does to its surroundings: whether a timer that will call
  \<^verbatim>\<open>onComplete\<close> is pending, whether \<^verbatim>\<open>onComplete\<close> has been called, the external
  operations invoked so far, and the statuses entered so far.
\<close>

datatype ExtCall =
    Call_runBackup bool
  | Call_abortMerge
  | Call_abortRebase
  | Call_fetchReleaseInfo string

record UpdateApp =
  state :: UpdateState
  releaseInfo :: "ReleaseInfo option"
  releaseLoading :: bool
  exitTimer :: bool
  completed :: bool
  calls :: "ExtCall list"
  visited :: "UpdateStatus list"

text \<open>
  What the operations imported from utils/backup-operations and utils/update-operations
  return when a handler calls them: \<^verbatim>\<open>runBackup(full)\<close> throws (\<open>Inl\<close> the message) or
  returns a result whose \<^verbatim>\<open>backupFile\<close> is \<open>Inr\<close>; \<^verbatim>\<open>abortMerge()\<close> and
  \<^verbatim>\<open>abortRebase()\<close> return a boolean.
\<close>

record World =
  runBackup :: "bool \<Rightarrow> string + string"
  abortMerge :: bool
  abortRebase :: bool

text \<open>The statements a handler or an effect of the component executes.\<close>

datatype Cmd =
    Dispatch UpdateAction
  | Invoke ExtCall
  | OnComplete
  | StartExitTimer
  | SetReleaseInfo "ReleaseInfo option"
  | SetReleaseLoading bool

fun exec :: "UpdateApp \<Rightarrow> Cmd \<Rightarrow> UpdateApp" where
  "exec app (Dispatch a) =
     (let s' = updateReducer (state app) a
      in app\<lparr>state := s',
              visited := (if status s' = status (state app) then visited app
                          else visited app @ [status s'])\<rparr>)"
| "exec app (Invoke c) = app\<lparr>calls := calls app @ [c]\<rparr>"
| "exec app OnComplete = app\<lparr>completed := True\<rparr>"
| "exec app StartExitTimer = app\<lparr>exitTimer := True\<rparr>"
| "exec app (SetReleaseInfo info) = app\<lparr>releaseInfo := info\<rparr>"
| "exec app (SetReleaseLoading b) = app\<lparr>releaseLoading := b\<rparr>"

definition execAll :: "UpdateApp \<Rightarrow> Cmd list \<Rightarrow> UpdateApp" where
  "execAll app cmds = foldl exec app cmds"

text \<open>
  \<^verbatim>\<open>path.basename\<close> (POSIX flavour): trailing slashes are dropped and the part after the
  last remaining slash is returned.
\<close>

definition basename :: "string \<Rightarrow> string" where
  "basename p =
    rev (takeWhile (\<lambda>c. c \<noteq> CHR ''/'') (dropWhile (\<lambda>c. c = CHR ''/'') (rev p)))"

text \<open>
  \<^verbatim>\<open>handleComplete\<close>: without the return hint, schedule \<^verbatim>\<open>onComplete\<close>. The prop
  \<^verbatim>\<open>showReturnHint\<close> of this component is the argument \<open>returnHint\<close> throughout.
\<close>

definition handleComplete :: "bool \<Rightarrow> Cmd list" where
  "handleComplete returnHint = (if \<not> returnHint then [StartExitTimer] else [])"

definition handleBackupConfirm :: "World \<Rightarrow> Cmd list" where
  "handleBackupConfirm w =
    [Dispatch BACKUP_CONFIRM, Invoke (Call_runBackup True)] @
    (case runBackup w True of
       Inr file \<Rightarrow> [Dispatch (BACKUP_DONE (basename file))]
     | Inl msg \<Rightarrow> [Dispatch (ERROR (''Backup failed: '' @ msg))])"

definition handleBackupSkip :: "Cmd list" where
  "handleBackupSkip = [Dispatch BACKUP_SKIP]"

definition handleUpdateConfirm :: "Cmd list" where
  "handleUpdateConfirm = [Dispatch UPDATE_CONFIRM]"

definition handleUpdateCancel :: "Cmd list" where
  "handleUpdateCancel = [OnComplete]"

definition handleBackupSelect :: "World \<Rightarrow> string \<Rightarrow> Cmd list" where
  "handleBackupSelect w v =
    (if v = ''backup'' then handleBackupConfirm w
     else if v = ''skip'' then handleBackupSkip
     else handleUpdateCancel)"

definition handleAbortMerge :: "World \<Rightarrow> Cmd list" where
  "handleAbortMerge w =
    Invoke Call_abortMerge #
    (if abortMerge w then [OnComplete]
     else [Dispatch (ERROR ''Could not abort merge. Please run git merge --abort manually'')])"

definition handleAbortRebase :: "World \<Rightarrow> Cmd list" where
  "handleAbortRebase w =
    Invoke Call_abortRebase #
    (if abortRebase w then [OnComplete]
     else [Dispatch (ERROR ''Could not abort rebase. Please run git rebase --abort manually'')])"

text \<open>The effect that confirms the update by itself in force mode.\<close>

definition forceAutoConfirm :: "UpdateState \<Rightarrow> Cmd list" where
  "forceAutoConfirm s =
    (if status s = Preview \<and> force (options s) \<and> \<not> checkOnly (options s) \<and> \<not> dryRun (options s)
     then [Dispatch UPDATE_CONFIRM] else [])"

text \<open>
  The effect that loads the release notes in \<^verbatim>\<open>preview\<close>, and what its promise does when
  it settles: \<open>Some info\<close> is the resolved value (\<^verbatim>\<open>ReleaseInfo | null\<close>), \<open>None\<close> a
  rejection, which the \<^verbatim>\<open>catch\<close> swallows.
\<close>

definition releaseInfoEffect :: "UpdateState \<Rightarrow> Cmd list" where
  "releaseInfoEffect s =
    (case updateInfo s of
       None \<Rightarrow> []
     | Some u \<Rightarrow>
         if status s = Preview \<and> latestVersion u \<noteq> [] \<and> latestVersion u \<noteq> ''unknown''
         then [SetReleaseLoading True, Invoke (Call_fetchReleaseInfo (latestVersion u))]
         else [])"

definition releaseSettled :: "ReleaseInfo option option \<Rightarrow> Cmd list" where
  "releaseSettled outcome =
    (case outcome of Some info \<Rightarrow> [SetReleaseInfo info] | None \<Rightarrow> []) @ [SetReleaseLoading False]"

text \<open>
  The effects of the component in source order, for the status just rendered (the effect
  over \<^verbatim>\<open>statusEffects\<close> is the event \<open>EffectDispatch\<close> below).
\<close>

definition renderEffects :: "bool \<Rightarrow> UpdateState \<Rightarrow> Cmd list" where
  "renderEffects returnHint s =
    (if status s = UpToDate \<or> status s = Done \<or> status s = Error
     then handleComplete returnHint else []) @
    (if status s = Preview \<and> (checkOnly (options s) \<or> dryRun (options s))
     then handleComplete returnHint else []) @
    releaseInfoEffect s @
    forceAutoConfirm s"

text \<open>
  Effects run after the render that follows a change of status; an effect that dispatches
  causes one more render, whose effects run in turn.
\<close>

definition afterRender :: "bool \<Rightarrow> UpdateApp \<Rightarrow> UpdateApp" where
  "afterRender returnHint app =
    (let app1 = execAll app (renderEffects returnHint (state app))
     in if status (state app1) = status (state app) then app1
        else execAll app1 (renderEffects returnHint (state app1)))"

definition mountUpdateApp :: "bool \<Rightarrow> UpdateOptions \<Rightarrow> UpdateApp" where
  "mountUpdateApp returnHint opts =
    afterRender returnHint
      \<lparr> state = createInitialState opts, releaseInfo = None, releaseLoading = False,
        exitTimer = False, completed = False, calls = [], visited = [Checking] \<rparr>"

text \<open>
  What is rendered in each status decides which inputs exist. \<open>None\<close>: no such input on
  the screen.
\<close>

definition onConfirm :: "World \<Rightarrow> UpdateState \<Rightarrow> Cmd list option" where
  "onConfirm w s =
    (if status s = BackupConfirm then
       (if rebase (options s) \<or> clean (options s) then Some (handleBackupConfirm w) else None)
     else if status s = Preview \<and> updateInfo s \<noteq> None then
       (if checkOnly (options s) \<or> dryRun (options s) then None
        else if \<not> force (options s) then Some handleUpdateConfirm else None)
     else if status s = Conflict then
       (case mergeResult s of
          None \<Rightarrow> None
        | Some r \<Rightarrow>
            Some (if isRebaseConflict r = Some True then handleAbortRebase w
                  else handleAbortMerge w))
     else None)"

definition onCancel :: "UpdateState \<Rightarrow> Cmd list option" where
  "onCancel s =
    (if status s = BackupConfirm then
       (if rebase (options s) \<or> clean (options s) then Some handleUpdateCancel else None)
     else if status s = Preview \<and> updateInfo s \<noteq> None then
       (if checkOnly (options s) \<or> dryRun (options s) then None
        else if \<not> force (options s) then Some handleUpdateCancel else None)
     else if status s = Conflict then
       (case mergeResult s of None \<Rightarrow> None | Some r \<Rightarrow> Some [OnComplete])
     else None)"

definition onSelect :: "World \<Rightarrow> UpdateState \<Rightarrow> string \<Rightarrow> Cmd list option" where
  "onSelect w s v =
    (if status s = BackupConfirm \<and> \<not> (rebase (options s) \<or> clean (options s))
        \<and> v \<in> set [''backup'', ''skip'', ''cancel'']
     then Some (handleBackupSelect w v) else None)"

definition pressAnyKeyActive :: "bool \<Rightarrow> UpdateState \<Rightarrow> bool" where
  "pressAnyKeyActive returnHint s =
    ((status s = Done \<or> status s = Error \<or> status s = UpToDate \<or> status s = DirtyWarning
      \<or> (status s = Preview \<and> (checkOnly (options s) \<or> dryRun (options s))))
     \<and> returnHint)"

text \<open>What can happen to the mounted component.\<close>

datatype UpdateEvent =
    EffectDispatch UpdateAction
  | ReleaseSettled "ReleaseInfo option option"
  | ConfirmYes
  | ConfirmNo
  | SelectValue string
  | AnyKey
  | ExitTimerFired

definition handler :: "bool \<Rightarrow> World \<Rightarrow> UpdateApp \<Rightarrow> UpdateEvent \<Rightarrow> Cmd list option" where
  "handler returnHint w app ev =
    (case ev of
       EffectDispatch a \<Rightarrow>
         if statusEffectMay (status (state app)) a then Some [Dispatch a] else None
     | ReleaseSettled outcome \<Rightarrow>
         if releaseLoading app then Some (releaseSettled outcome) else None
     | ConfirmYes \<Rightarrow> onConfirm w (state app)
     | ConfirmNo \<Rightarrow> onCancel (state app)
     | SelectValue v \<Rightarrow> onSelect w (state app) v
     | AnyKey \<Rightarrow> if pressAnyKeyActive returnHint (state app) then Some [OnComplete] else None
     | ExitTimerFired \<Rightarrow> if exitTimer app then Some [OnComplete] else None)"

text \<open>
  One event: nothing happens once \<^verbatim>\<open>onComplete\<close> has been called (the caller unmounts the
  screen) or when the input does not exist; otherwise the handler runs and, if the
  status changed, the effects of the new render.
\<close>

definition step :: "bool \<Rightarrow> UpdateApp \<Rightarrow> World \<times> UpdateEvent \<Rightarrow> UpdateApp option" where
  "step returnHint app we =
    (if completed app then None
     else case handler returnHint (fst we) app (snd we) of
            None \<Rightarrow> None
          | Some cmds \<Rightarrow>
              (let app1 = execAll app cmds
               in Some (if status (state app1) = status (state app) then app1
                        else afterRender returnHint app1)))"

fun run :: "bool \<Rightarrow> UpdateApp \<Rightarrow> (World \<times> UpdateEvent) list \<Rightarrow> UpdateApp option" where
  "run returnHint app [] = Some app"
| "run returnHint app (we # rest) =
     (case step returnHint app we of
        None \<Rightarrow> None
      | Some app1 \<Rightarrow> run returnHint app1 rest)"

text \<open>
  The release notes block of the preview screen. The block is rendered only on the
  preview (\<^verbatim>\<open>status === 'preview' && updateInfo\<close>) of an upgrade
  (\<^verbatim>\<open>!updateInfo.isDowngrade\<close>); \<open>None\<close>: no block on the screen. When rendered it is a
  message (\<open>Inl\<close>) or the notes to summarise (\<open>Inr\<close>).
\<close>

definition releaseNotes :: "UpdateApp \<Rightarrow> (string + string) option" where
  "releaseNotes app =
    (case updateInfo (state app) of
       None \<Rightarrow> None
     | Some u \<Rightarrow>
         if status (state app) = Preview \<and> \<not> isDowngrade u then
           Some (if releaseLoading app then Inl ''Fetching release notes...''
                 else case releaseInfo app of
                        None \<Rightarrow> Inl ''(Could not fetch detailed release notes)''
                      | Some info \<Rightarrow>
                          (case body info of
                             None \<Rightarrow> Inl ''(Could not fetch detailed release notes)''
                           | Some b \<Rightarrow>
                               if b = [] then Inl ''(Could not fetch detailed release notes)''
                               else Inr b))
         else None)"

section \<open>Notions used in the statements\<close>

text \<open>The statuses from \<^verbatim>\<open>fetching\<close> on: everything after the backup question is settled.\<close>

definition afterBackup :: "UpdateStatus \<Rightarrow> bool" where
  "afterBackup st =
    (st \<in> set [Fetching, Preview, Merging, CleanRestoring, Installing, Done, Conflict, UpToDate])"

text \<open>
  The backup module names the archive it wrote: the path returned by \<^verbatim>\<open>runBackup(true)\<close>
  has a file name.
\<close>

definition backupNamed :: "World \<Rightarrow> bool" where
  "backupNamed w = (case runBackup w True of Inl msg \<Rightarrow> True | Inr file \<Rightarrow> basename file \<noteq> [])"

text \<open>Commands that neither skip the backup nor report a backup without a file name.\<close>

fun noSkip :: "Cmd \<Rightarrow> bool" where
  "noSkip (Dispatch BACKUP_SKIP) = False"
| "noSkip (Dispatch (BACKUP_DONE file)) = (file \<noteq> [])"
| "noSkip c = True"

definition backupInv :: "UpdateOptions \<Rightarrow> UpdateApp \<Rightarrow> bool" where
  "backupInv opts app =
    (options (state app) = opts
     \<and> status (state app) \<in> set (visited app)
     \<and> (afterBackup (status (state app))
          \<longrightarrow> backupFile (state app) \<noteq> [] \<and> BackingUp \<in> set (visited app)))"

text \<open>Commands that change neither the reducer state nor the list of invoked operations.\<close>

fun quietCmd :: "Cmd \<Rightarrow> bool" where
  "quietCmd (Dispatch a) = False"
| "quietCmd (Invoke c) = False"
| "quietCmd c = True"

text \<open>The statuses in which an update, a restore or an install runs or has run.\<close>

definition updating :: "UpdateStatus \<Rightarrow> bool" where
  "updating st = (st \<in> set [Merging, CleanRestoring, Installing, Done, Conflict])"

text \<open>Commands other than the confirmation of the update.\<close>

fun noUpdateConfirm :: "Cmd \<Rightarrow> bool" where
  "noUpdateConfirm (Dispatch UPDATE_CONFIRM) = False"
| "noUpdateConfirm c = True"

definition checkInv :: "UpdateApp \<Rightarrow> bool" where
  "checkInv app =
    ((checkOnly (options (state app)) \<or> dryRun (options (state app)))
     \<and> status (state app) \<in> set (visited app)
     \<and> list_all (\<lambda>st. \<not> updating st) (visited app))"

definition dirtyInv :: "UpdateApp \<Rightarrow> UpdateApp \<Rightarrow> bool" where
  "dirtyInv app0 app =
    (status (state app0) = DirtyWarning
     \<and> state app = state app0 \<and> calls app = calls app0 \<and> visited app = visited app0)"

section \<open>Concrete runs used below\<close>

text \<open>The defaults of the props of \<^verbatim>\<open>UpdateApp\<close>: every flag off, no target tag.\<close>

definition defaultOptions :: UpdateOptions where
  "defaultOptions =
    \<lparr> checkOnly = False, skipBackup = False, force = False, targetTag = None,
      rebase = False, dryRun = False, clean = False \<rparr>"

definition cleanTree :: GitStatusInfo where
  "cleanTree =
    \<lparr> currentBranch = ''main'', isClean = True, uncommittedCount = 0, uncommittedFiles = [] \<rparr>"

definition dirtyTree :: GitStatusInfo where
  "dirtyTree =
    \<lparr> currentBranch = ''main'', isClean = False, uncommittedCount = 1,
      uncommittedFiles = [''src/pages/about.md''] \<rparr>"

definition threeBehind :: UpdateInfo where
  "threeBehind =
    \<lparr> hasUpstream = True, behindCount = 3, aheadCount = 0, commits = [], localCommits = [],
      currentVersion = ''2.0.0'', latestVersion = ''2.1.0'', isDowngrade = False \<rparr>"

definition backupWorks :: World where
  "backupWorks =
    \<lparr> runBackup = (\<lambda>full. Inr ''backups/backup-2026-01-01-full.tar.gz''),
      abortMerge = True, abortRebase = True \<rparr>"

definition abortFails :: World where
  "abortFails =
    \<lparr> runBackup = (\<lambda>full. Inl ''disk full''), abortMerge = False, abortRebase = False \<rparr>"

text \<open>
  A rebase run started with \<^verbatim>\<open>--rebase --skip-backup\<close> on a clean tree: the status check
  reports, the user confirms the mandatory backup, the backup succeeds.
\<close>

definition rebaseSkip :: UpdateOptions where
  "rebaseSkip = defaultOptions\<lparr>rebase := True, skipBackup := True\<rparr>"

definition rebaseTrace :: "(World \<times> UpdateEvent) list" where
  "rebaseTrace =
    [(backupWorks, EffectDispatch (GIT_CHECKED cleanTree)), (backupWorks, ConfirmYes)]"

definition rebaseFetching :: UpdateApp where
  "rebaseFetching =
    \<lparr> state = (createInitialState rebaseSkip)
        \<lparr> status := Fetching, gitStatus := Some cleanTree,
          backupFile := ''backup-2026-01-01-full.tar.gz'' \<rparr>,
      releaseInfo = None, releaseLoading = False, exitTimer = False, completed = False,
      calls = [Call_runBackup True],
      visited = [Checking, BackupConfirm, BackingUp, Fetching] \<rparr>"

text \<open>A preview reached in force mode, and the same with \<^verbatim>\<open>--dry-run\<close> added.\<close>

definition forcedPreview :: UpdateState where
  "forcedPreview =
    (createInitialState (defaultOptions\<lparr>force := True\<rparr>))
      \<lparr>status := Preview, updateInfo := Some threeBehind\<rparr>"

definition forcedDryRun :: UpdateState where
  "forcedDryRun = forcedPreview\<lparr>options := defaultOptions\<lparr>force := True, dryRun := True\<rparr>\<rparr>"

text \<open>The preview screen while the release notes are being fetched.\<close>

definition loadingPreview :: UpdateApp where
  "loadingPreview =
    \<lparr> state = (createInitialState defaultOptions)
        \<lparr>status := Preview, updateInfo := Some threeBehind\<rparr>,
      releaseInfo = None, releaseLoading = True, exitTimer = False, completed = False,
      calls = [Call_fetchReleaseInfo ''2.1.0''],
      visited = [Checking, BackupConfirm, Fetching, Preview] \<rparr>"

text \<open>The conflict screen after a rebase stopped on a theme file.\<close>

definition rebaseConflict :: MergeResult where
  "rebaseConflict =
    \<lparr> success = False, hasConflict = True, conflictFiles = [''src/layouts/Layout.astro''],
      error = None, isRebaseConflict = Some True, autoResolvedFiles = None,
      preCleanSha = None \<rparr>"

definition conflictScreen :: UpdateApp where
  "conflictScreen =
    \<lparr> state = (createInitialState (defaultOptions\<lparr>rebase := True\<rparr>))
        \<lparr>status := Conflict, mergeResult := Some rebaseConflict\<rparr>,
      releaseInfo = None, releaseLoading = False, exitTimer = False, completed = False,
      calls = [], visited = [Checking, BackupConfirm, BackingUp, Fetching, Preview, Merging, Conflict] \<rparr>"

text \<open>
  The same rebase options on a tree with uncommitted changes, shown from the main menu
  (with the return hint): the status check reports, then a key is pressed.
\<close>

definition dirtyWarningScreen :: UpdateApp where
  "dirtyWarningScreen =
    \<lparr> state = (createInitialState rebaseSkip)\<lparr>status := DirtyWarning, gitStatus := Some dirtyTree\<rparr>,
      releaseInfo = None, releaseLoading = False, exitTimer = False, completed = False,
      calls = [], visited = [Checking, DirtyWarning] \<rparr>"

text \<open>
  A run started with \<^verbatim>\<open>--force --skip-backup\<close> on a clean tree, after the status check:
  the screen is fetching.
\<close>

definition forcedOptions :: UpdateOptions where
  "forcedOptions = defaultOptions\<lparr>force := True, skipBackup := True\<rparr>"

definition forcedFetching :: UpdateApp where
  "forcedFetching =
    \<lparr> state = (createInitialState forcedOptions)\<lparr>status := Fetching, gitStatus := Some cleanTree\<rparr>,
      releaseInfo = None, releaseLoading = False, exitTimer = False, completed = False,
      calls = [], visited = [Checking, Fetching] \<rparr>"

text \<open>
  The conflict of the spec's scenario, with the sources of the backup items as the
  user-content paths, reported to a state that is merging.
\<close>

definition isBackupSource :: "string \<Rightarrow> bool" where
  "isBackupSource p = (p \<in> set (map src BACKUP_ITEMS))"

definition mergingState :: UpdateState where
  "mergingState = (createInitialState defaultOptions)\<lparr>status := Merging\<rparr>"

text \<open>
  A clean-mode run over a toy repository (the current commit and the files of the working
  tree): the replace succeeds, the restore of the user content fails half way, the reset
  brings back the files of the commit it is given.
\<close>

definition toyAdapter :: "(string \<times> string list) Adapter" where
  "toyAdapter =
    \<lparr> currentCommitSha = fst,
      replaceTree = (\<lambda>r. Inr (''f00d'', [''src/layouts/Layout.astro (upstream)''])),
      resetHard = (\<lambda>sha r. Inr (sha, [''src/layouts/Layout.astro'', ''src/content/blog/hello.md''])),
      restoreUserContent = (\<lambda>backup r. Inl (''Invalid backup manifest'', (fst r, ''config/site.yaml'' # snd r))) \<rparr>"

definition toyRepo :: "string \<times> string list" where
  "toyRepo = (''abc123'', [''src/layouts/Layout.astro'', ''src/content/blog/hello.md''])"

definition cleanRestoringState :: UpdateState where
  "cleanRestoringState =
    (createInitialState (defaultOptions\<lparr>clean := True\<rparr>))
      \<lparr> status := CleanRestoring, backupFile := ''backup-2026-01-01-full.tar.gz'',
        mergeResult := Some (snd (cleanMerge toyAdapter toyRepo)) \<rparr>"

text \<open>
  The restore screen started with \<^verbatim>\<open>restore --latest --dry-run --force\<close> from the command
  line, over a backup module that works.
\<close>

definition dryRunForced :: RestoreAppProps where
  "dryRunForced =
    \<lparr> initialBackupFile = Some ''backups/backup-2026-01-01-full.tar.gz'',
      dryRun = True, force = True, showReturnHint = False \<rparr>"

definition restoreWorks :: RestoreWorld where
  "restoreWorks =
    \<lparr> getRestorePreview = (\<lambda>b. Inr [\<lparr>path = ''src/content/blog'', fileCount = 12\<rparr>]),
      restoreBackup = (\<lambda>b. Inr [''src/content/blog'']),
      readManifest = (\<lambda>b. None),
      backups = [''backups/backup-2026-01-01-full.tar.gz''] \<rparr>"

section \<open>Properties of the restore map\<close>

lemma fromEntries_acc_dom: "dom (fromEntries_acc m es) = dom m \<union> fst ` set es"
proof (induction es arbitrary: m)
  case Nil
  then show ?case by simp
next
  case (Cons e es)
  obtain k v where e: "e = (k, v)" by (cases e)
  have "dom (fromEntries_acc (m(k \<mapsto> v)) es) = dom (m(k \<mapsto> v)) \<union> fst ` set es"
    by (rule Cons.IH)
  then show ?case unfolding e by simp
qed

lemma fromEntries_acc_notin:
  "k \<notin> fst ` set es \<Longrightarrow> fromEntries_acc m es k = m k"
proof (induction es arbitrary: m)
  case Nil
  then show ?case by simp
next
  case (Cons e es)
  obtain k' v' where e: "e = (k', v')" by (cases e)
  from Cons.prems have ne: "k \<noteq> k'" and notin: "k \<notin> fst ` set es" by (auto simp: e)
  have "fromEntries_acc (m(k' \<mapsto> v')) es k = (m(k' \<mapsto> v')) k"
    using notin by (rule Cons.IH)
  then show ?case unfolding e using ne by simp
qed

lemma fromEntries_acc_distinct:
  "distinct (map fst es) \<Longrightarrow> (k, v) \<in> set es \<Longrightarrow> fromEntries_acc m es k = Some v"
proof (induction es arbitrary: m)
  case Nil
  then show ?case by simp
next
  case (Cons e es)
  obtain k' v' where e: "e = (k', v')" by (cases e)
  show ?case
  proof (cases "(k, v) = (k', v')")
    case True
    with Cons.prems have "k \<notin> fst ` set es" by (auto simp: e)
    then have "fromEntries_acc (m(k' \<mapsto> v')) es k = (m(k' \<mapsto> v')) k"
      by (rule fromEntries_acc_notin)
    then show ?thesis using True unfolding e by simp
  next
    case False
    with Cons.prems have "distinct (map fst es)" and "(k, v) \<in> set es" by (auto simp: e)
    then have "fromEntries_acc (m(k' \<mapsto> v')) es k = Some v"
      by (rule Cons.IH)
    then show ?thesis unfolding e by simp
  qed
qed

lemma fromEntries_dom: "dom (fromEntries es) = fst ` set es"
  by (simp add: fromEntries_def fromEntries_acc_dom)

lemma fromEntries_inverse:
  "distinct (map fst es) \<Longrightarrow> map (fromEntries es) (map fst es) = map (\<lambda>e. Some (snd e)) es"
  by (auto simp: fromEntries_def intro: fromEntries_acc_distinct)

lemma BACKUP_ITEMS_dest_distinct: "distinct (map dest BACKUP_ITEMS)"
  by (simp add: BACKUP_ITEMS_def mkItem_def)

text \<open>
  C10. The restore map is the inverse of the backup items' assignment of destinations:
  every item's destination is mapped to that item's source, the destinations are
  pairwise distinct, and the map has exactly one key per backup item (nine), so following
  an item into the backup and back through the restore map ends at its project path.
\<close>

theorem RESTORE_MAP_inverse:
  "map (\<lambda>item. RESTORE_MAP (dest item)) BACKUP_ITEMS = map (\<lambda>item. Some (src item)) BACKUP_ITEMS
   \<and> distinct (map dest BACKUP_ITEMS)
   \<and> dom RESTORE_MAP = set (map dest BACKUP_ITEMS)
   \<and> card (dom RESTORE_MAP) = length BACKUP_ITEMS
   \<and> length BACKUP_ITEMS = 9"
proof -
  let ?es = "map (\<lambda>item. (dest item, src item)) BACKUP_ITEMS"
  have fst_es: "map fst ?es = map dest BACKUP_ITEMS" by (simp add: comp_def)
  have d: "distinct (map fst ?es)" using BACKUP_ITEMS_dest_distinct by (simp add: comp_def)
  have inv: "map (fromEntries ?es) (map fst ?es) = map (\<lambda>e. Some (snd e)) ?es"
    using d by (rule fromEntries_inverse)
  have a: "map (\<lambda>item. RESTORE_MAP (dest item)) BACKUP_ITEMS
           = map (\<lambda>item. Some (src item)) BACKUP_ITEMS"
    using inv by (simp add: RESTORE_MAP_def comp_def)
  have b: "dom RESTORE_MAP = set (map dest BACKUP_ITEMS)"
    by (simp add: RESTORE_MAP_def fromEntries_dom image_image)
  have c: "card (dom RESTORE_MAP) = length BACKUP_ITEMS"
    using b BACKUP_ITEMS_dest_distinct distinct_card [of "map dest BACKUP_ITEMS"] by simp
  have e: "length BACKUP_ITEMS = 9" by (simp add: BACKUP_ITEMS_def)
  from a b c e BACKUP_ITEMS_dest_distinct show ?thesis by blast
qed

section \<open>The update screen: general facts\<close>


lemma reducer_ERROR: "updateReducer s (ERROR m) = s\<lparr>status := Error, error := m\<rparr>"
  by (simp add: updateReducer_def)

lemma execAll_Nil: "execAll app [] = app"
  by (simp add: execAll_def)

lemma execAll_Cons: "execAll app (c # cmds) = execAll (exec app c) cmds"
  by (simp add: execAll_def)

lemma execAll_preserves:
  assumes ex: "\<And>a c. Inv a \<Longrightarrow> ok c \<Longrightarrow> Inv (exec a c)"
  shows "Inv app \<Longrightarrow> \<forall>c\<in>set cmds. ok c \<Longrightarrow> Inv (execAll app cmds)"
proof (induction cmds arbitrary: app)
  case Nil
  then show ?case by (simp add: execAll_Nil)
next
  case (Cons c cmds)
  from Cons.prems have "Inv (exec app c)" by (simp add: ex)
  moreover from Cons.prems have "\<forall>c\<in>set cmds. ok c" by simp
  ultimately show ?case by (simp add: execAll_Cons Cons.IH)
qed

lemma afterRender_preserves:
  assumes ex: "\<And>a c. Inv a \<Longrightarrow> ok c \<Longrightarrow> Inv (exec a c)"
      and re: "\<And>a. Inv a \<Longrightarrow> \<forall>c\<in>set (renderEffects h (state a)). ok c"
      and inv: "Inv app"
  shows "Inv (afterRender h app)"
proof -
  let ?app1 = "execAll app (renderEffects h (state app))"
  have one: "Inv ?app1"
    using ex inv re [OF inv] by (rule execAll_preserves)
  have two: "Inv (execAll ?app1 (renderEffects h (state ?app1)))"
    using ex one re [OF one] by (rule execAll_preserves)
  show ?thesis
    using one two by (simp add: afterRender_def Let_def)
qed

lemma step_preserves:
  assumes ex: "\<And>a c. Inv a \<Longrightarrow> ok c \<Longrightarrow> Inv (exec a c)"
      and re: "\<And>a. Inv a \<Longrightarrow> \<forall>c\<in>set (renderEffects h (state a)). ok c"
      and hd: "\<And>cmds. handler h w app ev = Some cmds \<Longrightarrow> \<forall>c\<in>set cmds. ok c"
      and inv: "Inv app"
      and st: "step h app (w, ev) = Some app'"
  shows "Inv app'"
proof -
  from st obtain cmds where c: "handler h w app ev = Some cmds"
    by (auto simp: step_def split: if_splits option.splits)
  let ?app1 = "execAll app cmds"
  have one: "Inv ?app1"
    using ex inv hd [OF c] by (rule execAll_preserves)
  have two: "Inv (afterRender h ?app1)"
    using ex re one by (rule afterRender_preserves)
  from st c have "app' = (if status (state ?app1) = status (state app) then ?app1
                          else afterRender h ?app1)"
    by (auto simp: step_def Let_def split: if_splits)
  with one two show ?thesis by simp
qed


lemma exec_backupInv:
  assumes mode: "rebase opts \<or> clean opts" and inv: "backupInv opts a" and ok: "noSkip c"
  shows "backupInv opts (exec a c)"
proof (cases c)
  case (Dispatch act)
  show ?thesis
  proof (cases act)
    case (GIT_CHECKED g)
    with Dispatch inv mode show ?thesis
      by (auto simp: backupInv_def updateReducer_def afterBackup_def Let_def)
  next
    case (FETCHED u nm)
    with Dispatch inv show ?thesis
      by (auto simp: backupInv_def updateReducer_def afterBackup_def Let_def)
  next
    case BACKUP_CONFIRM
    with Dispatch inv show ?thesis
      by (auto simp: backupInv_def updateReducer_def afterBackup_def Let_def)
  next
    case BACKUP_SKIP
    with Dispatch ok show ?thesis by simp
  next
    case (BACKUP_DONE f)
    with Dispatch ok have "f \<noteq> []" by simp
    with BACKUP_DONE Dispatch inv show ?thesis
      by (auto simp: backupInv_def updateReducer_def afterBackup_def Let_def)
  next
    case UPDATE_CONFIRM
    with Dispatch inv show ?thesis
      by (auto simp: backupInv_def updateReducer_def afterBackup_def Let_def)
  next
    case (MERGED r)
    with Dispatch inv show ?thesis
      by (auto simp: backupInv_def updateReducer_def afterBackup_def Let_def)
  next
    case (CLEAN_RESTORED fs)
    with Dispatch inv show ?thesis
      by (auto simp: backupInv_def updateReducer_def afterBackup_def Let_def)
  next
    case INSTALLED
    with Dispatch inv show ?thesis
      by (auto simp: backupInv_def updateReducer_def afterBackup_def Let_def)
  next
    case (ERROR m)
    with Dispatch inv show ?thesis
      by (auto simp: backupInv_def updateReducer_def afterBackup_def Let_def)
  qed
qed (use inv in \<open>simp_all add: backupInv_def\<close>)


lemma noSkip_handleComplete: "\<forall>c\<in>set (handleComplete h). noSkip c"
  by (simp add: handleComplete_def)

lemma noSkip_releaseInfoEffect: "\<forall>c\<in>set (releaseInfoEffect s). noSkip c"
  by (auto simp: releaseInfoEffect_def split: option.splits if_splits)

lemma noSkip_forceAutoConfirm: "\<forall>c\<in>set (forceAutoConfirm s). noSkip c"
  by (simp add: forceAutoConfirm_def)

lemma noSkip_renderEffects: "\<forall>c\<in>set (renderEffects h s). noSkip c"
  using noSkip_handleComplete [of h] noSkip_releaseInfoEffect [of s] noSkip_forceAutoConfirm [of s]
  by (auto simp: renderEffects_def)

lemma noSkip_handleBackupConfirm:
  "backupNamed w \<Longrightarrow> \<forall>c\<in>set (handleBackupConfirm w). noSkip c"
  by (auto simp: handleBackupConfirm_def backupNamed_def split: sum.splits)

lemma noSkip_aborts:
  "\<forall>c\<in>set (handleAbortRebase w). noSkip c" "\<forall>c\<in>set (handleAbortMerge w). noSkip c"
  by (simp_all add: handleAbortRebase_def handleAbortMerge_def)

lemma noSkip_onConfirm:
  assumes "backupNamed w" and "onConfirm w s = Some cmds"
  shows "\<forall>c\<in>set cmds. noSkip c"
proof -
  from assms(2) have "cmds = handleBackupConfirm w \<or> cmds = handleUpdateConfirm
      \<or> cmds = handleAbortRebase w \<or> cmds = handleAbortMerge w"
    by (auto simp: onConfirm_def split: if_splits option.splits)
  then show ?thesis
    using noSkip_handleBackupConfirm [OF assms(1)] noSkip_aborts [of w]
    by (auto simp: handleUpdateConfirm_def)
qed

lemma noSkip_onCancel: "onCancel s = Some cmds \<Longrightarrow> \<forall>c\<in>set cmds. noSkip c"
  by (auto simp: onCancel_def handleUpdateCancel_def split: if_splits option.splits)

lemma onSelect_mandatory:
  "rebase (options s) \<or> clean (options s) \<Longrightarrow> onSelect w s v = None"
  by (auto simp: onSelect_def)

lemma noSkip_effect: "statusEffectMay st a \<Longrightarrow> noSkip (Dispatch a)"
  by (cases a) (simp_all add: statusEffectMay_def)

lemma noSkip_releaseSettled: "\<forall>c\<in>set (releaseSettled outcome). noSkip c"
  by (auto simp: releaseSettled_def split: option.splits)

lemma noSkip_handler:
  assumes mode: "rebase (options (state app)) \<or> clean (options (state app))"
      and named: "backupNamed w"
      and h: "handler h w app ev = Some cmds"
  shows "\<forall>c\<in>set cmds. noSkip c"
proof (cases ev)
  case (EffectDispatch a)
  with h show ?thesis by (auto simp: handler_def noSkip_effect split: if_splits)
next
  case (ReleaseSettled outcome)
  with h noSkip_releaseSettled [of outcome] show ?thesis
    by (auto simp: handler_def split: if_splits)
next
  case ConfirmYes
  with h have "onConfirm w (state app) = Some cmds" by (simp add: handler_def)
  with named show ?thesis by (rule noSkip_onConfirm)
next
  case ConfirmNo
  with h have "onCancel (state app) = Some cmds" by (simp add: handler_def)
  then show ?thesis by (rule noSkip_onCancel)
next
  case (SelectValue v)
  with h onSelect_mandatory [OF mode, of w v] show ?thesis by (simp add: handler_def)
next
  case AnyKey
  with h show ?thesis by (auto simp: handler_def split: if_splits)
next
  case ExitTimerFired
  with h show ?thesis by (auto simp: handler_def split: if_splits)
qed

lemma step_backupInv:
  assumes mode: "rebase opts \<or> clean opts"
      and named: "backupNamed w"
      and inv: "backupInv opts app"
      and st: "step h app (w, ev) = Some app'"
  shows "backupInv opts app'"
proof (rule step_preserves [where Inv = "backupInv opts" and ok = noSkip, OF _ _ _ inv st])
  fix a c
  assume "backupInv opts a" and "noSkip c"
  with mode show "backupInv opts (exec a c)" by (rule exec_backupInv)
next
  fix a
  show "\<forall>c\<in>set (renderEffects h (state a)). noSkip c" by (rule noSkip_renderEffects)
next
  fix cmds
  assume "handler h w app ev = Some cmds"
  moreover from inv mode have "rebase (options (state app)) \<or> clean (options (state app))"
    by (simp add: backupInv_def)
  ultimately show "\<forall>c\<in>set cmds. noSkip c"
    using named by (intro noSkip_handler)
qed

lemma run_backupInv:
  assumes mode: "rebase opts \<or> clean opts"
  shows "backupInv opts app \<Longrightarrow> \<forall>we\<in>set tr. backupNamed (fst we)
         \<Longrightarrow> run h app tr = Some app' \<Longrightarrow> backupInv opts app'"
proof (induction tr arbitrary: app)
  case Nil
  then show ?case by simp
next
  case (Cons we tr)
  from Cons.prems(3) obtain app1 where s1: "step h app we = Some app1"
      and r1: "run h app1 tr = Some app'"
    by (auto split: option.splits)
  from Cons.prems(2) have named: "backupNamed (fst we)" by simp
  from s1 have s1': "step h app (fst we, snd we) = Some app1" by simp
  have "backupInv opts app1"
    using mode named Cons.prems(1) s1' by (rule step_backupInv)
  moreover from Cons.prems(2) have "\<forall>we\<in>set tr. backupNamed (fst we)" by simp
  ultimately show ?case using r1 by (rule Cons.IH)
qed

lemma mount_app:
  "mountUpdateApp h opts =
    \<lparr> state = createInitialState opts, releaseInfo = None, releaseLoading = False,
      exitTimer = False, completed = False, calls = [], visited = [Checking] \<rparr>"
  by (simp add: mountUpdateApp_def afterRender_def renderEffects_def releaseInfoEffect_def
      forceAutoConfirm_def createInitialState_def execAll_def Let_def)

lemma mount_backupInv: "backupInv opts (mountUpdateApp h opts)"
  by (simp add: mount_app backupInv_def createInitialState_def afterBackup_def)


lemma releaseInfoEffect_not_preview: "status s \<noteq> Preview \<Longrightarrow> releaseInfoEffect s = []"
  by (simp add: releaseInfoEffect_def split: option.splits)

lemma forceAutoConfirm_not_preview: "status s \<noteq> Preview \<Longrightarrow> forceAutoConfirm s = []"
  by (simp add: forceAutoConfirm_def)

lemma renderEffects_final:
  "status s = UpToDate \<or> status s = Done \<or> status s = Error \<Longrightarrow>
   renderEffects h s = handleComplete h"
  by (auto simp: renderEffects_def releaseInfoEffect_not_preview forceAutoConfirm_not_preview)

lemma renderEffects_quiet:
  "status s \<noteq> Preview \<Longrightarrow> status s \<noteq> UpToDate \<Longrightarrow> status s \<noteq> Done \<Longrightarrow> status s \<noteq> Error
   \<Longrightarrow> renderEffects h s = []"
  by (simp add: renderEffects_def releaseInfoEffect_not_preview forceAutoConfirm_not_preview)

lemma execAll_handleComplete:
  "execAll app (handleComplete h) = (if h then app else app\<lparr>exitTimer := True\<rparr>)"
  by (simp add: execAll_def handleComplete_def)

lemma afterRender_final:
  assumes "status (state app) = UpToDate \<or> status (state app) = Done \<or> status (state app) = Error"
  shows "afterRender h app = (if h then app else app\<lparr>exitTimer := True\<rparr>)"
  by (simp add: afterRender_def renderEffects_final [OF assms] execAll_handleComplete Let_def)

lemma afterRender_quiet:
  assumes "status (state app) \<noteq> Preview" "status (state app) \<noteq> UpToDate"
      "status (state app) \<noteq> Done" "status (state app) \<noteq> Error"
  shows "afterRender h app = app"
  by (simp add: afterRender_def renderEffects_quiet [OF assms] execAll_Nil Let_def)

lemma state_afterRender_final:
  assumes "status (state app) = UpToDate \<or> status (state app) = Done \<or> status (state app) = Error"
  shows "state (afterRender h app) = state app" "calls (afterRender h app) = calls app"
    "visited (afterRender h app) = visited app" "completed (afterRender h app) = completed app"
  by (simp_all add: afterRender_final [OF assms])

lemma backup_ok_exec:
  assumes "status (state app) = BackupConfirm"
  shows "execAll app [Dispatch BACKUP_CONFIRM, Invoke (Call_runBackup True), Dispatch (BACKUP_DONE b)]
         = app\<lparr>state := (state app)\<lparr>status := Fetching, backupFile := b\<rparr>,
                calls := calls app @ [Call_runBackup True],
                visited := visited app @ [BackingUp, Fetching]\<rparr>"
  using assms by (simp add: execAll_def updateReducer_def Let_def)

lemma backup_failed_exec:
  assumes "status (state app) = BackupConfirm"
  shows "execAll app [Dispatch BACKUP_CONFIRM, Invoke (Call_runBackup True), Dispatch (ERROR m)]
         = app\<lparr>state := (state app)\<lparr>status := Error, error := m\<rparr>,
                calls := calls app @ [Call_runBackup True],
                visited := visited app @ [BackingUp, Error]\<rparr>"
  using assms by (simp add: execAll_def updateReducer_def Let_def)

lemma handleBackupConfirm_cases:
  "handleBackupConfirm w =
    (case runBackup w True of
       Inr file \<Rightarrow> [Dispatch BACKUP_CONFIRM, Invoke (Call_runBackup True),
                    Dispatch (BACKUP_DONE (basename file))]
     | Inl msg \<Rightarrow> [Dispatch BACKUP_CONFIRM, Invoke (Call_runBackup True),
                   Dispatch (ERROR (''Backup failed: '' @ msg))])"
  by (simp add: handleBackupConfirm_def split: sum.splits)

lemma backup_confirm_yes:
  assumes bc: "status (state app) = BackupConfirm"
      and mode: "rebase (options (state app)) \<or> clean (options (state app))"
      and st: "step h app (w, ConfirmYes) = Some app'"
  shows "calls app' = calls app @ [Call_runBackup True]
       \<and> (case runBackup w True of
            Inr file \<Rightarrow> status (state app') = Fetching \<and> backupFile (state app') = basename file
          | Inl msg \<Rightarrow> status (state app') = Error)"
proof (cases "runBackup w True")
  case (Inl msg)
  let ?app1 = "app\<lparr>state := (state app)\<lparr>status := Error, error := ''Backup failed: '' @ msg\<rparr>,
                calls := calls app @ [Call_runBackup True],
                visited := visited app @ [BackingUp, Error]\<rparr>"
  have e: "execAll app (handleBackupConfirm w) = ?app1"
    using backup_failed_exec [OF bc] by (simp add: handleBackupConfirm_cases Inl)
  have fin: "status (state ?app1) = UpToDate \<or> status (state ?app1) = Done \<or> status (state ?app1) = Error"
    by simp
  from st bc mode have "app' = afterRender h ?app1"
    by (simp add: step_def handler_def onConfirm_def e Let_def split: if_splits)
  then show ?thesis
    using state_afterRender_final [OF fin, of h] by (simp add: Inl)
next
  case (Inr archive)
  let ?app1 = "app\<lparr>state := (state app)\<lparr>status := Fetching, backupFile := basename archive\<rparr>,
                calls := calls app @ [Call_runBackup True],
                visited := visited app @ [BackingUp, Fetching]\<rparr>"
  have e: "execAll app (handleBackupConfirm w) = ?app1"
    using backup_ok_exec [OF bc] by (simp add: handleBackupConfirm_cases Inr)
  have q: "afterRender h ?app1 = ?app1"
    by (rule afterRender_quiet) simp_all
  from st bc mode have "app' = afterRender h ?app1"
    by (simp add: step_def handler_def onConfirm_def e Let_def split: if_splits)
  then show ?thesis
    by (simp add: q Inr)
qed

lemma backup_confirm_exits:
  assumes bc: "status (state app) = BackupConfirm"
      and mode: "rebase (options (state app)) \<or> clean (options (state app))"
      and st: "step h app (w, ev) = Some app'"
  shows "(ev = ConfirmYes \<and> calls app' = calls app @ [Call_runBackup True]
           \<and> (case runBackup w True of
                Inr file \<Rightarrow> status (state app') = Fetching \<and> backupFile (state app') = basename file
              | Inl msg \<Rightarrow> status (state app') = Error))
       \<or> (state app' = state app \<and> calls app' = calls app
           \<and> (completed app' \<or> (\<exists>outcome. ev = ReleaseSettled outcome)))"
proof (cases ev)
  case (EffectDispatch a)
  with st bc show ?thesis
    by (cases a) (simp_all add: step_def handler_def statusEffectMay_def split: if_splits)
next
  case (ReleaseSettled outcome)
  with st show ?thesis
    by (cases outcome) (auto simp: step_def handler_def releaseSettled_def execAll_def split: if_splits)
next
  case ConfirmYes
  with backup_confirm_yes [OF bc mode] st show ?thesis by simp
next
  case ConfirmNo
  with st bc mode show ?thesis
    by (auto simp: step_def handler_def onCancel_def handleUpdateCancel_def execAll_def split: if_splits)
next
  case (SelectValue v)
  with st onSelect_mandatory [OF mode, of w v] show ?thesis
    by (simp add: step_def handler_def split: if_splits)
next
  case AnyKey
  with st bc show ?thesis
    by (auto simp: step_def handler_def pressAnyKeyActive_def execAll_def split: if_splits)
next
  case ExitTimerFired
  with st show ?thesis
    by (auto simp: step_def handler_def execAll_def split: if_splits)
qed

section \<open>Mandatory backup in rebase and clean mode\<close>

text \<open>
  C1. In rebase or clean mode (whatever \<^verbatim>\<open>skipBackup\<close> says), at every point of every run
  of the update screen in which the backup module names the archives it writes: if the
  status is \<^verbatim>\<open>fetching\<close> or any later one, then \<^verbatim>\<open>backupFile\<close> is not empty and
  \<^verbatim>\<open>backing-up\<close> was passed; and from \<^verbatim>\<open>backup-confirm\<close> an event either is the confirmation,
  which runs the backup and leads to \<^verbatim>\<open>fetching\<close> with the archive's name or to
  \<^verbatim>\<open>error\<close>, or leaves the state as it is, and then it cancelled the workflow (or was the
  release notes arriving).
\<close>

theorem mandatory_backup:
  assumes mode: "rebase opts \<or> clean opts"
      and run: "run returnHint (mountUpdateApp returnHint opts) tr = Some app"
      and named: "\<forall>we\<in>set tr. backupNamed (fst we)"
  shows "(afterBackup (status (state app))
            \<longrightarrow> backupFile (state app) \<noteq> [] \<and> BackingUp \<in> set (visited app))
       \<and> (status (state app) = BackupConfirm \<longrightarrow>
            (\<forall>w ev app'. step returnHint app (w, ev) = Some app' \<longrightarrow>
               (ev = ConfirmYes \<and> calls app' = calls app @ [Call_runBackup True]
                 \<and> (case runBackup w True of
                      Inr file \<Rightarrow> status (state app') = Fetching
                                   \<and> backupFile (state app') = basename file
                    | Inl msg \<Rightarrow> status (state app') = Error))
               \<or> (state app' = state app \<and> calls app' = calls app
                   \<and> (completed app' \<or> (\<exists>outcome. ev = ReleaseSettled outcome)))))"
proof -
  have inv: "backupInv opts app"
    using mode mount_backupInv named run by (rule run_backupInv)
  then have a: "afterBackup (status (state app))
            \<longrightarrow> backupFile (state app) \<noteq> [] \<and> BackingUp \<in> set (visited app)"
    by (simp add: backupInv_def)
  from inv mode have m: "rebase (options (state app)) \<or> clean (options (state app))"
    by (simp add: backupInv_def)
  have b: "status (state app) = BackupConfirm \<longrightarrow>
            (\<forall>w ev app'. step returnHint app (w, ev) = Some app' \<longrightarrow>
               (ev = ConfirmYes \<and> calls app' = calls app @ [Call_runBackup True]
                 \<and> (case runBackup w True of
                      Inr file \<Rightarrow> status (state app') = Fetching
                                   \<and> backupFile (state app') = basename file
                    | Inl msg \<Rightarrow> status (state app') = Error))
               \<or> (state app' = state app \<and> calls app' = calls app
                   \<and> (completed app' \<or> (\<exists>outcome. ev = ReleaseSettled outcome))))"
    using backup_confirm_exits [OF _ m] by blast
  from a b show ?thesis by blast
qed

theorem mandatory_backup_witness:
  "(rebase rebaseSkip \<or> clean rebaseSkip)
   \<and> skipBackup rebaseSkip
   \<and> run False (mountUpdateApp False rebaseSkip) rebaseTrace = Some rebaseFetching
   \<and> list_all (\<lambda>we. backupNamed (fst we)) rebaseTrace
   \<and> status (state rebaseFetching) = Fetching
   \<and> backupFile (state rebaseFetching) \<noteq> []
   \<and> BackingUp \<in> set (visited rebaseFetching)"
proof -
  have m: "rebase rebaseSkip \<or> clean rebaseSkip" by (simp add: rebaseSkip_def)
  have k: "skipBackup rebaseSkip" by (simp add: rebaseSkip_def)
  have r: "run False (mountUpdateApp False rebaseSkip) rebaseTrace = Some rebaseFetching"
    by code_simp
  have n: "\<forall>we\<in>set rebaseTrace. backupNamed (fst we)" by code_simp
  have f: "status (state rebaseFetching) = Fetching" by (simp add: rebaseFetching_def)
  then have "afterBackup (status (state rebaseFetching))" by (simp add: afterBackup_def)
  with mandatory_backup [OF m r n]
  have "backupFile (state rebaseFetching) \<noteq> [] \<and> BackingUp \<in> set (visited rebaseFetching)"
    by blast
  moreover from n have "list_all (\<lambda>we. backupNamed (fst we)) rebaseTrace"
    by (simp add: list_all_iff)
  ultimately show ?thesis using m k r f by blast
qed

section \<open>A failed fetch of the release notes\<close>

text \<open>
  C7. When the promise of \<^verbatim>\<open>fetchReleaseInfo\<close> is rejected, the handlers only clear the
  loading flag: they dispatch no action (so no \<^verbatim>\<open>ERROR\<close>) and do not call
  \<^verbatim>\<open>onComplete\<close>; the component is as before but for the flag, so the reducer state is
  unchanged and every prompt of the screen is as before. With no release information
  the screen then never shows release notes, and on the preview of an upgrade, where the
  block is rendered, it shows the text for missing release notes.
\<close>

theorem release_failure_swallowed:
  "releaseSettled None = [SetReleaseLoading False]
   \<and> (\<forall>a. Dispatch a \<notin> set (releaseSettled None))
   \<and> OnComplete \<notin> set (releaseSettled None)
   \<and> execAll app (releaseSettled None) = app\<lparr>releaseLoading := False\<rparr>
   \<and> (releaseLoading app \<and> \<not> completed app
        \<longrightarrow> step returnHint app (w, ReleaseSettled None) = Some (app\<lparr>releaseLoading := False\<rparr>))
   \<and> state (app\<lparr>releaseLoading := False\<rparr>) = state app
   \<and> handler returnHint w (app\<lparr>releaseLoading := False\<rparr>) ConfirmYes
       = handler returnHint w app ConfirmYes
   \<and> (releaseInfo app = None
        \<longrightarrow> (\<forall>notes. releaseNotes (app\<lparr>releaseLoading := False\<rparr>) \<noteq> Some (Inr notes)))
   \<and> (releaseInfo app = None \<and> status (state app) = Preview
       \<and> updateInfo (state app) = Some u \<and> \<not> isDowngrade u
        \<longrightarrow> releaseNotes (app\<lparr>releaseLoading := False\<rparr>)
            = Some (Inl ''(Could not fetch detailed release notes)''))
   \<and> (status (state app) \<noteq> Preview \<or> updateInfo (state app) = None
        \<longrightarrow> releaseNotes (app\<lparr>releaseLoading := False\<rparr>) = None)"
proof -
  have a: "releaseSettled None = [SetReleaseLoading False]"
    by (simp add: releaseSettled_def)
  have b: "execAll app (releaseSettled None) = app\<lparr>releaseLoading := False\<rparr>"
    by (simp add: a execAll_def)
  have c: "releaseLoading app \<and> \<not> completed app
        \<longrightarrow> step returnHint app (w, ReleaseSettled None) = Some (app\<lparr>releaseLoading := False\<rparr>)"
    by (simp add: step_def handler_def b)
  have h: "handler returnHint w (app\<lparr>releaseLoading := False\<rparr>) ConfirmYes
       = handler returnHint w app ConfirmYes"
    by (simp add: handler_def)
  have d: "releaseInfo app = None
        \<longrightarrow> (\<forall>notes. releaseNotes (app\<lparr>releaseLoading := False\<rparr>) \<noteq> Some (Inr notes))"
    by (simp add: releaseNotes_def split: option.splits)
  have e: "releaseInfo app = None \<and> status (state app) = Preview
       \<and> updateInfo (state app) = Some u \<and> \<not> isDowngrade u
        \<longrightarrow> releaseNotes (app\<lparr>releaseLoading := False\<rparr>)
            = Some (Inl ''(Could not fetch detailed release notes)'')"
    by (simp add: releaseNotes_def)
  have f: "status (state app) \<noteq> Preview \<or> updateInfo (state app) = None
        \<longrightarrow> releaseNotes (app\<lparr>releaseLoading := False\<rparr>) = None"
    by (auto simp: releaseNotes_def split: option.splits)
  from a b c h d e f show ?thesis by simp
qed

theorem release_failure_swallowed_witness:
  "releaseLoading loadingPreview
   \<and> status (state loadingPreview) = Preview
   \<and> updateInfo (state loadingPreview) = Some threeBehind
   \<and> step False loadingPreview (backupWorks, ReleaseSettled None)
       = Some (loadingPreview\<lparr>releaseLoading := False\<rparr>)
   \<and> state (loadingPreview\<lparr>releaseLoading := False\<rparr>) = state loadingPreview
   \<and> releaseNotes (loadingPreview\<lparr>releaseLoading := False\<rparr>)
       = Some (Inl ''(Could not fetch detailed release notes)'')"
proof -
  have h: "releaseLoading loadingPreview \<and> \<not> completed loadingPreview"
    by (simp add: loadingPreview_def)
  have n: "releaseInfo loadingPreview = None \<and> status (state loadingPreview) = Preview
       \<and> updateInfo (state loadingPreview) = Some threeBehind \<and> \<not> isDowngrade threeBehind"
    by (simp add: loadingPreview_def threeBehind_def)
  note w = release_failure_swallowed [of loadingPreview False backupWorks threeBehind]
  from w h have a: "step False loadingPreview (backupWorks, ReleaseSettled None)
       = Some (loadingPreview\<lparr>releaseLoading := False\<rparr>)"
    by blast
  from w n have b: "releaseNotes (loadingPreview\<lparr>releaseLoading := False\<rparr>)
       = Some (Inl ''(Could not fetch detailed release notes)'')"
    by blast
  from h n a b show ?thesis by simp
qed

section \<open>Aborting from the conflict screen\<close>

lemma abort_cmds:
  "handleAbortRebase w =
     (if abortRebase w then [Invoke Call_abortRebase, OnComplete]
      else [Invoke Call_abortRebase,
            Dispatch (ERROR ''Could not abort rebase. Please run git rebase --abort manually'')])"
  "handleAbortMerge w =
     (if abortMerge w then [Invoke Call_abortMerge, OnComplete]
      else [Invoke Call_abortMerge,
            Dispatch (ERROR ''Could not abort merge. Please run git merge --abort manually'')])"
  by (simp_all add: handleAbortRebase_def handleAbortMerge_def)

lemma conflict_handler:
  assumes "status (state app) = Conflict" and "mergeResult (state app) = Some r"
  shows "handler h w app ConfirmYes =
      Some (if isRebaseConflict r = Some True then handleAbortRebase w else handleAbortMerge w)"
  using assms by (simp add: handler_def onConfirm_def)

lemma abort_succeeded_step:
  assumes "status (state app) = Conflict" and "\<not> completed app"
      and "handler h w app ConfirmYes = Some [Invoke c, OnComplete]"
  shows "step h app (w, ConfirmYes) = Some (app\<lparr>calls := calls app @ [c], completed := True\<rparr>)"
  using assms by (simp add: step_def execAll_def)

lemma abort_failed_step:
  assumes cf: "status (state app) = Conflict" and nc: "\<not> completed app"
      and hd: "handler h w app ConfirmYes = Some [Invoke c, Dispatch (ERROR m)]"
  shows "\<exists>app'. step h app (w, ConfirmYes) = Some app'
           \<and> calls app' = calls app @ [c]
           \<and> status (state app') = Error \<and> error (state app') = m
           \<and> \<not> completed app'"
proof -
  let ?app1 = "app\<lparr>calls := calls app @ [c],
                   state := (state app)\<lparr>status := Error, error := m\<rparr>,
                   visited := visited app @ [Error]\<rparr>"
  have e: "execAll app [Invoke c, Dispatch (ERROR m)] = ?app1"
    using cf by (simp add: execAll_def reducer_ERROR)
  have fin: "status (state ?app1) = UpToDate \<or> status (state ?app1) = Done
      \<or> status (state ?app1) = Error"
    by simp
  have "step h app (w, ConfirmYes) = Some (afterRender h ?app1)"
    using cf nc by (simp add: step_def hd e)
  then show ?thesis
    using nc state_afterRender_final [OF fin, of h] by simp
qed

text \<open>
  C8. On the conflict screen, confirming the abort prompt runs \<^verbatim>\<open>handleAbortRebase\<close>, which
  invokes \<^verbatim>\<open>abortRebase\<close> and not \<^verbatim>\<open>abortMerge\<close>, exactly when \<^verbatim>\<open>isRebaseConflict\<close> is
  true, and \<^verbatim>\<open>handleAbortMerge\<close>, which invokes \<^verbatim>\<open>abortMerge\<close> and not \<^verbatim>\<open>abortRebase\<close>,
  otherwise. When the abort reports success the screen calls \<^verbatim>\<open>onComplete\<close> and the
  state stays as it is (it does not enter \<^verbatim>\<open>error\<close>); when it reports failure the
  state enters \<^verbatim>\<open>error\<close> with the message that names the manual command, and
  \<^verbatim>\<open>onComplete\<close> is not called.
\<close>

theorem conflict_abort:
  assumes "status (state app) = Conflict" and "mergeResult (state app) = Some r"
      and "\<not> completed app"
  shows "(isRebaseConflict r = Some True \<longrightarrow>
            onConfirm w (state app) = Some (handleAbortRebase w)
            \<and> Invoke Call_abortRebase \<in> set (handleAbortRebase w)
            \<and> Invoke Call_abortMerge \<notin> set (handleAbortRebase w)
            \<and> (abortRebase w \<longrightarrow>
                 step returnHint app (w, ConfirmYes)
                 = Some (app\<lparr>calls := calls app @ [Call_abortRebase], completed := True\<rparr>))
            \<and> (\<not> abortRebase w \<longrightarrow>
                 (\<exists>app'. step returnHint app (w, ConfirmYes) = Some app'
                    \<and> calls app' = calls app @ [Call_abortRebase]
                    \<and> status (state app') = Error
                    \<and> error (state app')
                        = ''Could not abort rebase. Please run '' @ ''git rebase --abort'' @ '' manually''
                    \<and> \<not> completed app')))
       \<and> (isRebaseConflict r \<noteq> Some True \<longrightarrow>
            onConfirm w (state app) = Some (handleAbortMerge w)
            \<and> Invoke Call_abortMerge \<in> set (handleAbortMerge w)
            \<and> Invoke Call_abortRebase \<notin> set (handleAbortMerge w)
            \<and> (abortMerge w \<longrightarrow>
                 step returnHint app (w, ConfirmYes)
                 = Some (app\<lparr>calls := calls app @ [Call_abortMerge], completed := True\<rparr>))
            \<and> (\<not> abortMerge w \<longrightarrow>
                 (\<exists>app'. step returnHint app (w, ConfirmYes) = Some app'
                    \<and> calls app' = calls app @ [Call_abortMerge]
                    \<and> status (state app') = Error
                    \<and> error (state app')
                        = ''Could not abort merge. Please run '' @ ''git merge --abort'' @ '' manually''
                    \<and> \<not> completed app')))"
proof -
  note hd = conflict_handler [OF assms(1) assms(2), of returnHint w]
  have oc: "onConfirm w (state app) =
      Some (if isRebaseConflict r = Some True then handleAbortRebase w else handleAbortMerge w)"
    using assms by (simp add: onConfirm_def)
  have in_r: "Invoke Call_abortRebase \<in> set (handleAbortRebase w)"
      "Invoke Call_abortMerge \<notin> set (handleAbortRebase w)"
    by (simp_all add: abort_cmds)
  have in_m: "Invoke Call_abortMerge \<in> set (handleAbortMerge w)"
      "Invoke Call_abortRebase \<notin> set (handleAbortMerge w)"
    by (simp_all add: abort_cmds)
  have r_ok: "step returnHint app (w, ConfirmYes)
                 = Some (app\<lparr>calls := calls app @ [Call_abortRebase], completed := True\<rparr>)"
    if "isRebaseConflict r = Some True" "abortRebase w"
    using that hd by (intro abort_succeeded_step [OF assms(1) assms(3)]) (simp add: abort_cmds)
  have r_bad: "\<exists>app'. step returnHint app (w, ConfirmYes) = Some app'
                    \<and> calls app' = calls app @ [Call_abortRebase]
                    \<and> status (state app') = Error
                    \<and> error (state app')
                        = ''Could not abort rebase. Please run '' @ ''git rebase --abort'' @ '' manually''
                    \<and> \<not> completed app'"
    if "isRebaseConflict r = Some True" "\<not> abortRebase w"
  proof -
    have "handler returnHint w app ConfirmYes = Some [Invoke Call_abortRebase,
            Dispatch (ERROR ''Could not abort rebase. Please run git rebase --abort manually'')]"
      using that hd by (simp add: abort_cmds)
    from abort_failed_step [OF assms(1) assms(3) this] show ?thesis by simp
  qed
  have m_ok: "step returnHint app (w, ConfirmYes)
                 = Some (app\<lparr>calls := calls app @ [Call_abortMerge], completed := True\<rparr>)"
    if "isRebaseConflict r \<noteq> Some True" "abortMerge w"
    using that hd by (intro abort_succeeded_step [OF assms(1) assms(3)]) (simp add: abort_cmds)
  have m_bad: "\<exists>app'. step returnHint app (w, ConfirmYes) = Some app'
                    \<and> calls app' = calls app @ [Call_abortMerge]
                    \<and> status (state app') = Error
                    \<and> error (state app')
                        = ''Could not abort merge. Please run '' @ ''git merge --abort'' @ '' manually''
                    \<and> \<not> completed app'"
    if "isRebaseConflict r \<noteq> Some True" "\<not> abortMerge w"
  proof -
    have "handler returnHint w app ConfirmYes = Some [Invoke Call_abortMerge,
            Dispatch (ERROR ''Could not abort merge. Please run git merge --abort manually'')]"
      using that hd by (simp add: abort_cmds)
    from abort_failed_step [OF assms(1) assms(3) this] show ?thesis by simp
  qed
  from oc in_r in_m r_ok r_bad m_ok m_bad show ?thesis by auto
qed

theorem conflict_abort_witness:
  "status (state conflictScreen) = Conflict
   \<and> mergeResult (state conflictScreen) = Some rebaseConflict
   \<and> isRebaseConflict rebaseConflict = Some True
   \<and> step False conflictScreen (backupWorks, ConfirmYes)
       = Some (conflictScreen\<lparr>calls := calls conflictScreen @ [Call_abortRebase], completed := True\<rparr>)
   \<and> (\<exists>app'. step False conflictScreen (abortFails, ConfirmYes) = Some app'
         \<and> calls app' = calls conflictScreen @ [Call_abortRebase]
         \<and> status (state app') = Error
         \<and> error (state app') = ''Could not abort rebase. Please run git rebase --abort manually''
         \<and> \<not> completed app')"
proof -
  have h1: "status (state conflictScreen) = Conflict"
    by (simp add: conflictScreen_def)
  have h2: "mergeResult (state conflictScreen) = Some rebaseConflict"
    by (simp add: conflictScreen_def)
  have h3: "\<not> completed conflictScreen"
    by (simp add: conflictScreen_def)
  have rc: "isRebaseConflict rebaseConflict = Some True" by (simp add: rebaseConflict_def)
  have w1: "abortRebase backupWorks" by (simp add: backupWorks_def)
  have w2: "\<not> abortRebase abortFails" by (simp add: abortFails_def)
  from conflict_abort [OF h1 h2 h3, of backupWorks False] rc w1
  have a: "step False conflictScreen (backupWorks, ConfirmYes)
       = Some (conflictScreen\<lparr>calls := calls conflictScreen @ [Call_abortRebase], completed := True\<rparr>)"
    by blast
  from conflict_abort [OF h1 h2 h3, of abortFails False] rc w2
  have b: "\<exists>app'. step False conflictScreen (abortFails, ConfirmYes) = Some app'
         \<and> calls app' = calls conflictScreen @ [Call_abortRebase]
         \<and> status (state app') = Error
         \<and> error (state app') = ''Could not abort rebase. Please run git rebase --abort manually''
         \<and> \<not> completed app'"
    by simp
  from h1 h2 rc a b show ?thesis by blast
qed

section \<open>The status check\<close>

lemma exec_quiet:
  "quietCmd c \<Longrightarrow> state (exec app c) = state app \<and> calls (exec app c) = calls app
     \<and> visited (exec app c) = visited app"
  by (cases c) simp_all

lemma exec_dirtyInv: "dirtyInv app0 a \<Longrightarrow> quietCmd c \<Longrightarrow> dirtyInv app0 (exec a c)"
  using exec_quiet [of c a] by (auto simp: dirtyInv_def)

lemma quiet_releaseSettled: "\<forall>c\<in>set (releaseSettled outcome). quietCmd c"
  by (auto simp: releaseSettled_def split: option.splits)

lemma dirty_no_effect: "\<not> statusEffectMay DirtyWarning a"
  by (cases a) (simp_all add: statusEffectMay_def)

lemma handler_dirty:
  assumes "status (state app) = DirtyWarning" and "handler h w app ev = Some cmds"
  shows "\<forall>c\<in>set cmds. quietCmd c"
proof (cases ev)
  case (EffectDispatch a)
  with assms dirty_no_effect [of a] show ?thesis by (simp add: handler_def)
next
  case (ReleaseSettled outcome)
  with assms quiet_releaseSettled [of outcome] show ?thesis
    by (auto simp: handler_def split: if_splits)
next
  case ConfirmYes
  with assms show ?thesis by (simp add: handler_def onConfirm_def)
next
  case ConfirmNo
  with assms show ?thesis by (simp add: handler_def onCancel_def)
next
  case (SelectValue v)
  with assms show ?thesis by (simp add: handler_def onSelect_def)
next
  case AnyKey
  with assms show ?thesis by (auto simp: handler_def split: if_splits)
next
  case ExitTimerFired
  with assms show ?thesis by (auto simp: handler_def split: if_splits)
qed

lemma step_dirtyInv:
  assumes inv: "dirtyInv app0 app" and st: "step h app (w, ev) = Some app'"
  shows "dirtyInv app0 app'"
proof (rule step_preserves [where Inv = "dirtyInv app0" and ok = quietCmd, OF _ _ _ inv st])
  fix a c
  assume "dirtyInv app0 a" and "quietCmd c"
  then show "dirtyInv app0 (exec a c)" by (rule exec_dirtyInv)
next
  fix a
  assume "dirtyInv app0 a"
  then have "status (state a) = DirtyWarning" by (auto simp: dirtyInv_def)
  then have "renderEffects h (state a) = []"
    by (intro renderEffects_quiet) simp_all
  then show "\<forall>c\<in>set (renderEffects h (state a)). quietCmd c" by simp
next
  fix cmds
  assume "handler h w app ev = Some cmds"
  moreover from inv have "status (state app) = DirtyWarning" by (auto simp: dirtyInv_def)
  ultimately show "\<forall>c\<in>set cmds. quietCmd c" by (intro handler_dirty)
qed

lemma run_dirtyInv:
  "dirtyInv app0 app \<Longrightarrow> run h app tr = Some app' \<Longrightarrow> dirtyInv app0 app'"
proof (induction tr arbitrary: app)
  case Nil
  then show ?case by simp
next
  case (Cons we tr)
  from Cons.prems(2) obtain app1 where s1: "step h app (fst we, snd we) = Some app1"
      and r1: "run h app1 tr = Some app'"
    by (auto split: option.splits)
  from Cons.prems(1) s1 have "dirtyInv app0 app1" by (rule step_dirtyInv)
  then show ?case using r1 by (rule Cons.IH)
qed

lemma reducer_GIT_CHECKED:
  "status s = Checking \<Longrightarrow>
   updateReducer s (GIT_CHECKED g) =
     s\<lparr>status := (if \<not> isClean g \<and> \<not> force (options s) then DirtyWarning
                   else if skipBackup (options s) \<and> \<not> rebase (options s) \<and> \<not> clean (options s)
                     then Fetching
                   else BackupConfirm),
        gitStatus := Some g\<rparr>"
  by (simp add: updateReducer_def)

text \<open>
  C4. For \<^verbatim>\<open>GIT_CHECKED\<close> arriving in \<^verbatim>\<open>checking\<close>: the next status is \<^verbatim>\<open>dirty-warning\<close> if the
  tree is not clean and \<^verbatim>\<open>force\<close> is off; otherwise it is \<^verbatim>\<open>fetching\<close> if \<^verbatim>\<open>skipBackup\<close> is
  set and neither \<^verbatim>\<open>rebase\<close> nor \<^verbatim>\<open>clean\<close> is, and \<^verbatim>\<open>backup-confirm\<close> if not; no backup
  file is recorded by it. And whatever the options, a screen that shows \<^verbatim>\<open>dirty-warning\<close>
  stays there in every run: the reducer state, the operations invoked and the statuses
  entered never change again, so neither a backup nor a merge or rebase is attempted.
\<close>

theorem git_checked:
  assumes "status s = Checking"
  shows "status (updateReducer s (GIT_CHECKED g)) =
           (if \<not> isClean g \<and> \<not> force (options s) then DirtyWarning
            else if skipBackup (options s) \<and> \<not> rebase (options s) \<and> \<not> clean (options s)
              then Fetching
            else BackupConfirm)
       \<and> backupFile (updateReducer s (GIT_CHECKED g)) = backupFile s
       \<and> (\<forall>returnHint app tr app'.
             status (state app) = DirtyWarning \<and> run returnHint app tr = Some app'
             \<longrightarrow> state app' = state app \<and> calls app' = calls app \<and> visited app' = visited app)"
proof -
  have a: "status (updateReducer s (GIT_CHECKED g)) =
           (if \<not> isClean g \<and> \<not> force (options s) then DirtyWarning
            else if skipBackup (options s) \<and> \<not> rebase (options s) \<and> \<not> clean (options s)
              then Fetching
            else BackupConfirm)"
    by (simp add: reducer_GIT_CHECKED [OF assms])
  have b: "backupFile (updateReducer s (GIT_CHECKED g)) = backupFile s"
    by (simp add: reducer_GIT_CHECKED [OF assms])
  have c: "state app' = state app \<and> calls app' = calls app \<and> visited app' = visited app"
    if "status (state app) = DirtyWarning" and "run h app tr = Some app'" for h app tr app'
  proof -
    from that(1) have "dirtyInv app app" by (simp add: dirtyInv_def)
    then have "dirtyInv app app'" using that(2) by (rule run_dirtyInv)
    then show ?thesis by (simp add: dirtyInv_def)
  qed
  from a b c show ?thesis by blast
qed

theorem git_checked_witness:
  "status (createInitialState rebaseSkip) = Checking
   \<and> rebase rebaseSkip \<and> skipBackup rebaseSkip \<and> \<not> force rebaseSkip \<and> \<not> isClean dirtyTree
   \<and> status (updateReducer (createInitialState rebaseSkip) (GIT_CHECKED dirtyTree)) = DirtyWarning
   \<and> status (updateReducer (createInitialState rebaseSkip) (GIT_CHECKED cleanTree)) = BackupConfirm
   \<and> status (updateReducer (createInitialState (defaultOptions\<lparr>skipBackup := True\<rparr>))
               (GIT_CHECKED cleanTree)) = Fetching
   \<and> run True (mountUpdateApp True rebaseSkip)
        [(backupWorks, EffectDispatch (GIT_CHECKED dirtyTree))] = Some dirtyWarningScreen
   \<and> run True dirtyWarningScreen [(backupWorks, AnyKey)]
        = Some (dirtyWarningScreen\<lparr>completed := True\<rparr>)
   \<and> calls (dirtyWarningScreen\<lparr>completed := True\<rparr>) = []"
proof -
  have h: "status (createInitialState opts) = Checking" for opts
    by (simp add: createInitialState_def)
  have o: "options (createInitialState opts) = opts" for opts
    by (simp add: createInitialState_def)
  have f: "rebase rebaseSkip \<and> skipBackup rebaseSkip \<and> \<not> force rebaseSkip \<and> \<not> clean rebaseSkip"
    by (simp add: rebaseSkip_def defaultOptions_def)
  have t: "\<not> isClean dirtyTree" "isClean cleanTree"
    by (simp_all add: dirtyTree_def cleanTree_def)
  from git_checked [OF h, of rebaseSkip dirtyTree] f t
  have a: "status (updateReducer (createInitialState rebaseSkip) (GIT_CHECKED dirtyTree)) = DirtyWarning"
    by (simp add: o)
  from git_checked [OF h, of rebaseSkip cleanTree] f t
  have b: "status (updateReducer (createInitialState rebaseSkip) (GIT_CHECKED cleanTree)) = BackupConfirm"
    by (simp add: o)
  from git_checked [OF h, of "defaultOptions\<lparr>skipBackup := True\<rparr>" cleanTree] t
  have c: "status (updateReducer (createInitialState (defaultOptions\<lparr>skipBackup := True\<rparr>))
               (GIT_CHECKED cleanTree)) = Fetching"
    by (simp add: o defaultOptions_def)
  have r1: "run True (mountUpdateApp True rebaseSkip)
        [(backupWorks, EffectDispatch (GIT_CHECKED dirtyTree))] = Some dirtyWarningScreen"
    by code_simp
  have r2: "run True dirtyWarningScreen [(backupWorks, AnyKey)]
        = Some (dirtyWarningScreen\<lparr>completed := True\<rparr>)"
    by code_simp
  have d: "status (state dirtyWarningScreen) = DirtyWarning"
    by (simp add: dirtyWarningScreen_def)
  from git_checked [OF h, of rebaseSkip dirtyTree] d r2
  have "calls (dirtyWarningScreen\<lparr>completed := True\<rparr>) = calls dirtyWarningScreen"
    by blast
  then have e: "calls (dirtyWarningScreen\<lparr>completed := True\<rparr>) = []"
    by (simp add: dirtyWarningScreen_def)
  from h [of rebaseSkip] f t a b c r1 r2 e show ?thesis by blast
qed

section \<open>Runs that only preview\<close>

lemma exec_checkInv:
  assumes inv: "checkInv a" and ok: "noUpdateConfirm c"
  shows "checkInv (exec a c)"
proof (cases c)
  case (Dispatch act)
  show ?thesis
  proof (cases act)
    case UPDATE_CONFIRM
    with Dispatch ok show ?thesis by simp
  next
    case (GIT_CHECKED g)
    with Dispatch inv show ?thesis
      by (auto simp: checkInv_def updateReducer_def updating_def Let_def)
  next
    case (FETCHED u nm)
    with Dispatch inv show ?thesis
      by (auto simp: checkInv_def updateReducer_def updating_def Let_def)
  next
    case BACKUP_CONFIRM
    with Dispatch inv show ?thesis
      by (auto simp: checkInv_def updateReducer_def updating_def Let_def)
  next
    case BACKUP_SKIP
    with Dispatch inv show ?thesis
      by (auto simp: checkInv_def updateReducer_def updating_def Let_def)
  next
    case (BACKUP_DONE f)
    with Dispatch inv show ?thesis
      by (auto simp: checkInv_def updateReducer_def updating_def Let_def)
  next
    case (MERGED r)
    with Dispatch inv show ?thesis
      by (auto simp: checkInv_def updateReducer_def updating_def Let_def list_all_iff)
  next
    case (CLEAN_RESTORED fs)
    with Dispatch inv show ?thesis
      by (auto simp: checkInv_def updateReducer_def updating_def Let_def list_all_iff)
  next
    case INSTALLED
    with Dispatch inv show ?thesis
      by (auto simp: checkInv_def updateReducer_def updating_def Let_def list_all_iff)
  next
    case (ERROR m)
    with Dispatch inv show ?thesis
      by (auto simp: checkInv_def updateReducer_def updating_def Let_def)
  qed
qed (use inv in \<open>simp_all add: checkInv_def\<close>)

lemma noUpdateConfirm_effect: "statusEffectMay st a \<Longrightarrow> noUpdateConfirm (Dispatch a)"
  by (cases a) (simp_all add: statusEffectMay_def)

lemma noUpdateConfirm_releaseSettled: "\<forall>c\<in>set (releaseSettled outcome). noUpdateConfirm c"
  by (auto simp: releaseSettled_def split: option.splits)

lemma noUpdateConfirm_handleBackupConfirm: "\<forall>c\<in>set (handleBackupConfirm w). noUpdateConfirm c"
  by (auto simp: handleBackupConfirm_def split: sum.splits)

lemma noUpdateConfirm_aborts:
  "\<forall>c\<in>set (handleAbortRebase w). noUpdateConfirm c"
  "\<forall>c\<in>set (handleAbortMerge w). noUpdateConfirm c"
  by (simp_all add: handleAbortRebase_def handleAbortMerge_def)

lemma noUpdateConfirm_onConfirm:
  assumes "checkOnly (options s) \<or> dryRun (options s)" and "onConfirm w s = Some cmds"
  shows "\<forall>c\<in>set cmds. noUpdateConfirm c"
proof -
  from assms have "cmds = handleBackupConfirm w
      \<or> cmds = handleAbortRebase w \<or> cmds = handleAbortMerge w"
    by (auto simp: onConfirm_def split: if_splits option.splits)
  then show ?thesis
    using noUpdateConfirm_handleBackupConfirm [of w] noUpdateConfirm_aborts [of w] by auto
qed

lemma noUpdateConfirm_onCancel: "onCancel s = Some cmds \<Longrightarrow> \<forall>c\<in>set cmds. noUpdateConfirm c"
  by (auto simp: onCancel_def handleUpdateCancel_def split: if_splits option.splits)

lemma noUpdateConfirm_onSelect: "onSelect w s v = Some cmds \<Longrightarrow> \<forall>c\<in>set cmds. noUpdateConfirm c"
  using noUpdateConfirm_handleBackupConfirm [of w]
  by (auto simp: onSelect_def handleBackupSelect_def handleBackupSkip_def handleUpdateCancel_def
      split: if_splits)

lemma noUpdateConfirm_handler:
  assumes chk: "checkOnly (options (state app)) \<or> dryRun (options (state app))" and h: "handler h w app ev = Some cmds"
  shows "\<forall>c\<in>set cmds. noUpdateConfirm c"
proof (cases ev)
  case (EffectDispatch a)
  with h show ?thesis by (auto simp: handler_def noUpdateConfirm_effect split: if_splits)
next
  case (ReleaseSettled outcome)
  with h noUpdateConfirm_releaseSettled [of outcome] show ?thesis
    by (auto simp: handler_def split: if_splits)
next
  case ConfirmYes
  with h have "onConfirm w (state app) = Some cmds" by (simp add: handler_def)
  with chk show ?thesis by (rule noUpdateConfirm_onConfirm)
next
  case ConfirmNo
  with h have "onCancel (state app) = Some cmds" by (simp add: handler_def)
  then show ?thesis by (rule noUpdateConfirm_onCancel)
next
  case (SelectValue v)
  with h have "onSelect w (state app) v = Some cmds" by (simp add: handler_def)
  then show ?thesis by (rule noUpdateConfirm_onSelect)
next
  case AnyKey
  with h show ?thesis by (auto simp: handler_def split: if_splits)
next
  case ExitTimerFired
  with h show ?thesis by (auto simp: handler_def split: if_splits)
qed

lemma noUpdateConfirm_renderEffects:
  assumes "checkOnly (options s) \<or> dryRun (options s)"
  shows "\<forall>c\<in>set (renderEffects h s). noUpdateConfirm c"
proof -
  have "\<forall>c\<in>set (handleComplete h). noUpdateConfirm c" by (simp add: handleComplete_def)
  moreover have "\<forall>c\<in>set (releaseInfoEffect s). noUpdateConfirm c"
    by (auto simp: releaseInfoEffect_def split: option.splits if_splits)
  moreover from assms have "forceAutoConfirm s = []" by (simp add: forceAutoConfirm_def)
  ultimately show ?thesis by (auto simp: renderEffects_def)
qed

lemma step_checkInv:
  assumes inv: "checkInv app" and st: "step h app (w, ev) = Some app'"
  shows "checkInv app'"
proof (rule step_preserves [where Inv = checkInv and ok = noUpdateConfirm, OF _ _ _ inv st])
  fix a c
  assume "checkInv a" and "noUpdateConfirm c"
  then show "checkInv (exec a c)" by (rule exec_checkInv)
next
  fix a
  assume "checkInv a"
  then have "checkOnly (options (state a)) \<or> dryRun (options (state a))"
    by (simp add: checkInv_def)
  then show "\<forall>c\<in>set (renderEffects h (state a)). noUpdateConfirm c"
    by (rule noUpdateConfirm_renderEffects)
next
  fix cmds
  assume "handler h w app ev = Some cmds"
  moreover from inv have "checkOnly (options (state app)) \<or> dryRun (options (state app))"
    by (simp add: checkInv_def)
  ultimately show "\<forall>c\<in>set cmds. noUpdateConfirm c" by (intro noUpdateConfirm_handler)
qed

lemma run_checkInv:
  "checkInv app \<Longrightarrow> run h app tr = Some app' \<Longrightarrow> checkInv app'"
proof (induction tr arbitrary: app)
  case Nil
  then show ?case by simp
next
  case (Cons we tr)
  from Cons.prems(2) obtain app1 where s1: "step h app (fst we, snd we) = Some app1"
      and r1: "run h app1 tr = Some app'"
    by (auto split: option.splits)
  from Cons.prems(1) s1 have "checkInv app1" by (rule step_checkInv)
  then show ?case using r1 by (rule Cons.IH)
qed

lemma mount_checkInv: "checkOnly opts \<or> dryRun opts \<Longrightarrow> checkInv (mountUpdateApp h opts)"
  by (simp add: mount_app checkInv_def createInitialState_def updating_def)

section \<open>Automatic confirmation in force mode\<close>

lemma dispatch_notin_handleComplete: "Dispatch a \<notin> set (handleComplete h)"
  by (simp add: handleComplete_def)

lemma dispatch_notin_releaseInfoEffect: "Dispatch a \<notin> set (releaseInfoEffect s)"
  by (auto simp: releaseInfoEffect_def split: option.splits if_splits)

lemma frame_handleComplete:
  "state (execAll app (handleComplete h)) = state app"
  "visited (execAll app (handleComplete h)) = visited app"
  "completed (execAll app (handleComplete h)) = completed app"
  by (simp_all add: execAll_handleComplete)

lemma frame_releaseInfoEffect:
  "state (execAll app (releaseInfoEffect s)) = state app"
  "visited (execAll app (releaseInfoEffect s)) = visited app"
  "completed (execAll app (releaseInfoEffect s)) = completed app"
  by (simp_all add: releaseInfoEffect_def execAll_def split: option.splits)

lemma reducer_UPDATE_CONFIRM:
  "status s = Preview \<Longrightarrow> updateReducer s UPDATE_CONFIRM = s\<lparr>status := Merging\<rparr>"
  by (simp add: updateReducer_def)

lemma renderEffects_forced:
  assumes "status s = Preview" "force (options s)" "\<not> checkOnly (options s)" "\<not> dryRun (options s)"
  shows "renderEffects h s = releaseInfoEffect s @ [Dispatch UPDATE_CONFIRM]"
  using assms by (simp add: renderEffects_def forceAutoConfirm_def)

lemma renderEffects_previewOnly:
  assumes "status s = Preview" "checkOnly (options s) \<or> dryRun (options s)"
  shows "renderEffects h s = handleComplete h @ releaseInfoEffect s"
  using assms by (auto simp: renderEffects_def forceAutoConfirm_def)

lemma afterRender_forced:
  assumes pv: "status (state app) = Preview" and f: "force (options (state app))"
      and nc: "\<not> checkOnly (options (state app))" and nd: "\<not> dryRun (options (state app))"
  shows "state (afterRender h app) = (state app)\<lparr>status := Merging\<rparr>"
    and "visited (afterRender h app) = visited app @ [Merging]"
    and "completed (afterRender h app) = completed app"
proof -
  let ?app0 = "execAll app (releaseInfoEffect (state app))"
  let ?app1 = "execAll app (renderEffects h (state app))"
  have e: "?app1 = exec ?app0 (Dispatch UPDATE_CONFIRM)"
    by (simp add: renderEffects_forced [OF pv f nc nd] execAll_def)
  note fr = frame_releaseInfoEffect [of app "state app"]
  have s1: "state ?app1 = (state app)\<lparr>status := Merging\<rparr>"
    using pv by (simp add: e fr reducer_UPDATE_CONFIRM Let_def)
  have v1: "visited ?app1 = visited app @ [Merging]"
    using pv by (simp add: e fr reducer_UPDATE_CONFIRM Let_def)
  have c1: "completed ?app1 = completed app"
    by (simp add: e fr Let_def)
  have q: "renderEffects h ((state app)\<lparr>status := Merging\<rparr>) = []"
    by (rule renderEffects_quiet) simp_all
  have ar: "afterRender h app = ?app1"
    using pv by (simp add: afterRender_def Let_def s1 q execAll_Nil)
  show "state (afterRender h app) = (state app)\<lparr>status := Merging\<rparr>" by (simp add: ar s1)
  show "visited (afterRender h app) = visited app @ [Merging]" by (simp add: ar v1)
  show "completed (afterRender h app) = completed app" by (simp add: ar c1)
qed

lemma afterRender_previewOnly:
  assumes pv: "status (state app) = Preview"
      and po: "checkOnly (options (state app)) \<or> dryRun (options (state app))"
  shows "state (afterRender h app) = state app"
    and "visited (afterRender h app) = visited app"
proof -
  let ?app0 = "execAll app (handleComplete h)"
  let ?app1 = "execAll app (renderEffects h (state app))"
  have e: "?app1 = execAll ?app0 (releaseInfoEffect (state app))"
    by (simp add: renderEffects_previewOnly [OF pv po] execAll_def)
  have s1: "state ?app1 = state app"
    by (simp add: e frame_releaseInfoEffect frame_handleComplete)
  have v1: "visited ?app1 = visited app"
    by (simp add: e frame_releaseInfoEffect frame_handleComplete)
  have ar: "afterRender h app = ?app1"
    by (simp add: afterRender_def Let_def s1)
  show "state (afterRender h app) = state app" by (simp add: ar s1)
  show "visited (afterRender h app) = visited app" by (simp add: ar v1)
qed

lemma reducer_FETCHED_preview:
  assumes "status s = Fetching" "hasUpstream u"
      and "\<not> (behindCount u = 0 \<and> aheadCount u = 0 \<and> \<not> isDowngrade u)"
  shows "updateReducer s (FETCHED u nm) =
           s\<lparr>status := Preview, updateInfo := Some u,
              needsMigration := (case nm of None \<Rightarrow> False | Some b \<Rightarrow> b)\<rparr>"
  using assms by (auto simp: updateReducer_def)

lemma fetched_step:
  assumes ft: "status (state app) = Fetching" and nc: "\<not> completed app"
      and up: "hasUpstream u" "\<not> (behindCount u = 0 \<and> aheadCount u = 0 \<and> \<not> isDowngrade u)"
  shows "step h app (w, EffectDispatch (FETCHED u nm)) =
           Some (afterRender h
             (app\<lparr>state := (state app)\<lparr>status := Preview, updateInfo := Some u,
                       needsMigration := (case nm of None \<Rightarrow> False | Some b \<Rightarrow> b)\<rparr>,
                   visited := visited app @ [Preview]\<rparr>))"
proof -
  have hd: "handler h w app (EffectDispatch (FETCHED u nm)) = Some [Dispatch (FETCHED u nm)]"
    using ft by (simp add: handler_def statusEffectMay_def)
  have e: "execAll app [Dispatch (FETCHED u nm)] =
      app\<lparr>state := (state app)\<lparr>status := Preview, updateInfo := Some u,
                       needsMigration := (case nm of None \<Rightarrow> False | Some b \<Rightarrow> b)\<rparr>,
          visited := visited app @ [Preview]\<rparr>"
    using ft by (simp add: execAll_def reducer_FETCHED_preview [OF ft up] Let_def)
  show ?thesis
    using ft nc by (simp add: step_def hd e)
qed

text \<open>
  C5. In \<^verbatim>\<open>preview\<close> with \<^verbatim>\<open>force\<close> set and neither \<^verbatim>\<open>checkOnly\<close> nor \<^verbatim>\<open>dryRun\<close>, the
  force effect dispatches \<^verbatim>\<open>UPDATE_CONFIRM\<close>, it is among the effects of that render, and
  no confirmation prompt is on the screen; running the effects of that render takes the
  state from \<^verbatim>\<open>preview\<close> to \<^verbatim>\<open>merging\<close>, and the event that reports the fetch takes the
  screen from \<^verbatim>\<open>fetching\<close> through \<^verbatim>\<open>preview\<close> to \<^verbatim>\<open>merging\<close> in one step, with no input
  from the user. With \<^verbatim>\<open>checkOnly\<close> or \<^verbatim>\<open>dryRun\<close> set the force effect dispatches nothing,
  no effect of the render dispatches \<^verbatim>\<open>UPDATE_CONFIRM\<close>, the effects of the preview leave
  the state as it is, and no run ever enters \<^verbatim>\<open>merging\<close>. The force effect dispatches
  only under the first condition.
\<close>

theorem force_auto_confirm:
  "(status s = Preview \<and> force (options s) \<and> \<not> checkOnly (options s) \<and> \<not> dryRun (options s)
      \<longrightarrow> forceAutoConfirm s = [Dispatch UPDATE_CONFIRM]
          \<and> Dispatch UPDATE_CONFIRM \<in> set (renderEffects returnHint s)
          \<and> onConfirm w s = None
          \<and> (\<forall>app. state app = s
                \<longrightarrow> state (afterRender returnHint app) = s\<lparr>status := Merging\<rparr>
                    \<and> visited (afterRender returnHint app) = visited app @ [Merging]
                    \<and> completed (afterRender returnHint app) = completed app))
   \<and> (status s = Fetching \<and> force (options s) \<and> \<not> checkOnly (options s) \<and> \<not> dryRun (options s)
      \<longrightarrow> (\<forall>app u nm. state app = s \<and> \<not> completed app \<and> hasUpstream u
                \<and> \<not> (behindCount u = 0 \<and> aheadCount u = 0 \<and> \<not> isDowngrade u)
                \<longrightarrow> (\<exists>app'. step returnHint app (w, EffectDispatch (FETCHED u nm)) = Some app'
                       \<and> status (state app') = Merging
                       \<and> updateInfo (state app') = Some u
                       \<and> visited app' = visited app @ [Preview, Merging]
                       \<and> \<not> completed app')))
   \<and> (checkOnly (options s) \<or> dryRun (options s)
      \<longrightarrow> forceAutoConfirm s = []
          \<and> Dispatch UPDATE_CONFIRM \<notin> set (renderEffects returnHint s)
          \<and> (\<forall>app. state app = s \<and> status s = Preview
                \<longrightarrow> state (afterRender returnHint app) = s
                    \<and> visited (afterRender returnHint app) = visited app)
          \<and> (\<forall>tr app. run returnHint (mountUpdateApp returnHint (options s)) tr = Some app
                \<longrightarrow> status (state app) \<noteq> Merging \<and> Merging \<notin> set (visited app)))
   \<and> (forceAutoConfirm s \<noteq> []
      \<longrightarrow> status s = Preview \<and> force (options s) \<and> \<not> checkOnly (options s) \<and> \<not> dryRun (options s))"
proof -
  have a: "forceAutoConfirm s = [Dispatch UPDATE_CONFIRM]
          \<and> Dispatch UPDATE_CONFIRM \<in> set (renderEffects returnHint s)
          \<and> onConfirm w s = None
          \<and> (\<forall>app. state app = s
                \<longrightarrow> state (afterRender returnHint app) = s\<lparr>status := Merging\<rparr>
                    \<and> visited (afterRender returnHint app) = visited app @ [Merging]
                    \<and> completed (afterRender returnHint app) = completed app)"
    if c: "status s = Preview" "force (options s)" "\<not> checkOnly (options s)" "\<not> dryRun (options s)"
  proof -
    have 1: "forceAutoConfirm s = [Dispatch UPDATE_CONFIRM]
          \<and> Dispatch UPDATE_CONFIRM \<in> set (renderEffects returnHint s)
          \<and> onConfirm w s = None"
      using c by (simp add: forceAutoConfirm_def renderEffects_def onConfirm_def)
    have 2: "state (afterRender returnHint app) = s\<lparr>status := Merging\<rparr>
          \<and> visited (afterRender returnHint app) = visited app @ [Merging]
          \<and> completed (afterRender returnHint app) = completed app"
      if "state app = s" for app
      using afterRender_forced [of app returnHint] c that by simp
    from 1 2 show ?thesis by blast
  qed
  have b: "\<exists>app'. step returnHint app (w, EffectDispatch (FETCHED u nm)) = Some app'
                       \<and> status (state app') = Merging
                       \<and> updateInfo (state app') = Some u
                       \<and> visited app' = visited app @ [Preview, Merging]
                       \<and> \<not> completed app'"
    if c: "status s = Fetching" "force (options s)" "\<not> checkOnly (options s)" "\<not> dryRun (options s)"
      and d: "state app = s" "\<not> completed app" "hasUpstream u"
        "\<not> (behindCount u = 0 \<and> aheadCount u = 0 \<and> \<not> isDowngrade u)"
    for app u nm
  proof -
    let ?app1 = "app\<lparr>state := (state app)\<lparr>status := Preview, updateInfo := Some u,
                       needsMigration := (case nm of None \<Rightarrow> False | Some b \<Rightarrow> b)\<rparr>,
                   visited := visited app @ [Preview]\<rparr>"
    have ft: "status (state app) = Fetching" using c(1) d(1) by simp
    have st: "step returnHint app (w, EffectDispatch (FETCHED u nm))
              = Some (afterRender returnHint ?app1)"
      using ft d(2) d(3) d(4) by (rule fetched_step)
    have pv: "status (state ?app1) = Preview" by simp
    have f: "force (options (state ?app1))" "\<not> checkOnly (options (state ?app1))"
        "\<not> dryRun (options (state ?app1))"
      using c d(1) by simp_all
    note ar = afterRender_forced [OF pv f, of returnHint]
    have "status (state (afterRender returnHint ?app1)) = Merging"
        "updateInfo (state (afterRender returnHint ?app1)) = Some u"
        "visited (afterRender returnHint ?app1) = visited app @ [Preview, Merging]"
        "\<not> completed (afterRender returnHint ?app1)"
      using d(2) by (simp_all add: ar)
    with st show ?thesis by simp
  qed
  have e: "forceAutoConfirm s = []
          \<and> Dispatch UPDATE_CONFIRM \<notin> set (renderEffects returnHint s)
          \<and> (\<forall>app. state app = s \<and> status s = Preview
                \<longrightarrow> state (afterRender returnHint app) = s
                    \<and> visited (afterRender returnHint app) = visited app)
          \<and> (\<forall>tr app. run returnHint (mountUpdateApp returnHint (options s)) tr = Some app
                \<longrightarrow> status (state app) \<noteq> Merging \<and> Merging \<notin> set (visited app))"
    if c: "checkOnly (options s) \<or> dryRun (options s)"
  proof -
    have 1: "forceAutoConfirm s = []
          \<and> Dispatch UPDATE_CONFIRM \<notin> set (renderEffects returnHint s)"
      using c dispatch_notin_handleComplete dispatch_notin_releaseInfoEffect
      by (auto simp: forceAutoConfirm_def renderEffects_def)
    have 2: "state (afterRender returnHint app) = s
                    \<and> visited (afterRender returnHint app) = visited app"
      if "state app = s" "status s = Preview" for app
      using afterRender_previewOnly [of app returnHint] c that by simp
    have 3: "status (state app) \<noteq> Merging \<and> Merging \<notin> set (visited app)"
      if r: "run returnHint (mountUpdateApp returnHint (options s)) tr = Some app" for tr app
    proof -
      from c have "checkInv (mountUpdateApp returnHint (options s))" by (rule mount_checkInv)
      then have "checkInv app" using r by (rule run_checkInv)
      then show ?thesis by (auto simp: checkInv_def list_all_iff updating_def)
    qed
    from 1 2 3 show ?thesis by blast
  qed
  have g: "forceAutoConfirm s \<noteq> []
      \<longrightarrow> status s = Preview \<and> force (options s) \<and> \<not> checkOnly (options s) \<and> \<not> dryRun (options s)"
    by (simp add: forceAutoConfirm_def split: if_splits)
  from a b e g show ?thesis by blast
qed

theorem force_auto_confirm_witness:
  "status forcedPreview = Preview
   \<and> force (options forcedPreview)
   \<and> forceAutoConfirm forcedPreview = [Dispatch UPDATE_CONFIRM]
   \<and> status (state forcedFetching) = Fetching
   \<and> (\<exists>app'. step False forcedFetching (backupWorks, EffectDispatch (FETCHED threeBehind None))
                = Some app'
         \<and> status (state app') = Merging
         \<and> visited app' = [Checking, Fetching, Preview, Merging])
   \<and> dryRun (options forcedDryRun)
   \<and> forceAutoConfirm forcedDryRun = []"
proof -
  have h1: "status forcedPreview = Preview \<and> force (options forcedPreview)
      \<and> \<not> checkOnly (options forcedPreview) \<and> \<not> dryRun (options forcedPreview)"
    by (simp add: forcedPreview_def createInitialState_def defaultOptions_def)
  have h2: "checkOnly (options forcedDryRun) \<or> dryRun (options forcedDryRun)"
    by (simp add: forcedDryRun_def)
  from force_auto_confirm [of forcedPreview] h1
  have a: "forceAutoConfirm forcedPreview = [Dispatch UPDATE_CONFIRM]" by blast
  from force_auto_confirm [of forcedDryRun] h2
  have b: "forceAutoConfirm forcedDryRun = []" by blast
  have d: "dryRun (options forcedDryRun)" by (simp add: forcedDryRun_def)
  have h3: "status (state forcedFetching) = Fetching
      \<and> force (options (state forcedFetching))
      \<and> \<not> checkOnly (options (state forcedFetching))
      \<and> \<not> dryRun (options (state forcedFetching))"
    by (simp add: forcedFetching_def createInitialState_def forcedOptions_def defaultOptions_def)
  have h4: "\<not> completed forcedFetching \<and> hasUpstream threeBehind
      \<and> \<not> (behindCount threeBehind = 0 \<and> aheadCount threeBehind = 0 \<and> \<not> isDowngrade threeBehind)"
    by (simp add: forcedFetching_def threeBehind_def)
  have v: "visited forcedFetching = [Checking, Fetching]"
    by (simp add: forcedFetching_def)
  from force_auto_confirm [of "state forcedFetching" False backupWorks] h3
  have "\<forall>app u nm. state app = state forcedFetching \<and> \<not> completed app \<and> hasUpstream u
                \<and> \<not> (behindCount u = 0 \<and> aheadCount u = 0 \<and> \<not> isDowngrade u)
                \<longrightarrow> (\<exists>app'. step False app (backupWorks, EffectDispatch (FETCHED u nm)) = Some app'
                       \<and> status (state app') = Merging
                       \<and> updateInfo (state app') = Some u
                       \<and> visited app' = visited app @ [Preview, Merging]
                       \<and> \<not> completed app')"
    by blast
  with h4 have "\<exists>app'. step False forcedFetching (backupWorks, EffectDispatch (FETCHED threeBehind None))
                = Some app'
         \<and> status (state app') = Merging
         \<and> visited app' = visited forcedFetching @ [Preview, Merging]"
    by blast
  then have c: "\<exists>app'. step False forcedFetching (backupWorks, EffectDispatch (FETCHED threeBehind None))
                = Some app'
         \<and> status (state app') = Merging
         \<and> visited app' = [Checking, Fetching, Preview, Merging]"
    by (simp add: v)
  from h1 h3 a b c d show ?thesis by blast
qed


section \<open>The conflict resolution policy\<close>

lemma remaining_is_difference:
  "filter (\<lambda>f. \<not> P f) files = filter (\<lambda>f. f \<notin> set (filter P files)) files"
  by (rule filter_cong) auto

text \<open>
  C3. For every classification of paths and every list of conflicting files: each
  automatically resolved file is user content, none of them is a path that is not user
  content, the remaining conflicts are the original list without the automatically
  resolved files, and the two lists are what the merge result reports. In the spec's
  scenario \<^verbatim>\<open>config/site.yaml\<close> is resolved, \<^verbatim>\<open>theme/layout.astro\<close> remains and the state
  becomes \<^verbatim>\<open>conflict\<close>.
\<close>

theorem conflict_policy:
  "set (fst (resolveConflicts isUserContent files)) \<subseteq> {f. isUserContent f}
   \<and> set (fst (resolveConflicts isUserContent files)) \<inter> {f. \<not> isUserContent f} = {}
   \<and> snd (resolveConflicts isUserContent files)
       = filter (\<lambda>f. f \<notin> set (fst (resolveConflicts isUserContent files))) files
   \<and> autoResolvedFiles (conflictResult isUserContent isRebase files)
       = Some (fst (resolveConflicts isUserContent files))
   \<and> conflictFiles (conflictResult isUserContent isRebase files)
       = snd (resolveConflicts isUserContent files)
   \<and> resolveConflicts isBackupSource [''config/site.yaml'', ''theme/layout.astro'']
       = ([''config/site.yaml''], [''theme/layout.astro''])
   \<and> status (updateReducer mergingState
         (MERGED (conflictResult isBackupSource False [''config/site.yaml'', ''theme/layout.astro''])))
       = Conflict"
proof -
  have a: "set (fst (resolveConflicts isUserContent files)) \<subseteq> {f. isUserContent f}"
    by (auto simp: resolveConflicts_def)
  have b: "set (fst (resolveConflicts isUserContent files)) \<inter> {f. \<not> isUserContent f} = {}"
    by (auto simp: resolveConflicts_def)
  have c: "snd (resolveConflicts isUserContent files)
       = filter (\<lambda>f. f \<notin> set (fst (resolveConflicts isUserContent files))) files"
    using remaining_is_difference [of isUserContent files] by (simp add: resolveConflicts_def)
  have d: "autoResolvedFiles (conflictResult isUserContent isRebase files)
       = Some (fst (resolveConflicts isUserContent files))"
      "conflictFiles (conflictResult isUserContent isRebase files)
       = snd (resolveConflicts isUserContent files)"
    by (simp_all add: conflictResult_def)
  have e: "resolveConflicts isBackupSource [''config/site.yaml'', ''theme/layout.astro'']
       = ([''config/site.yaml''], [''theme/layout.astro''])"
    by (simp add: resolveConflicts_def isBackupSource_def BACKUP_ITEMS_def mkItem_def)
  have f: "status (updateReducer mergingState
         (MERGED (conflictResult isBackupSource False [''config/site.yaml'', ''theme/layout.astro''])))
       = Conflict"
    by (simp add: updateReducer_def mergingState_def conflictResult_def)
  from a b c d e f show ?thesis by blast
qed

theorem conflict_policy_witness:
  "fst (resolveConflicts isBackupSource [''config/site.yaml'', ''theme/layout.astro'', ''.env''])
     = [''config/site.yaml'', ''.env'']
   \<and> snd (resolveConflicts isBackupSource [''config/site.yaml'', ''theme/layout.astro'', ''.env''])
     = [''theme/layout.astro'']
   \<and> conflictFiles (conflictResult isBackupSource True
         [''config/site.yaml'', ''theme/layout.astro'', ''.env''])
     = [''theme/layout.astro'']"
proof -
  let ?files = "[''config/site.yaml'', ''theme/layout.astro'', ''.env'']"
  have a: "fst (resolveConflicts isBackupSource ?files) = [''config/site.yaml'', ''.env'']"
    by (simp add: resolveConflicts_def isBackupSource_def BACKUP_ITEMS_def mkItem_def)
  note w = conflict_policy [of isBackupSource ?files True]
  from w have "snd (resolveConflicts isBackupSource ?files)
      = filter (\<lambda>f. f \<notin> set (fst (resolveConflicts isBackupSource ?files))) ?files"
    by blast
  then have b: "snd (resolveConflicts isBackupSource ?files) = [''theme/layout.astro'']"
    by (simp add: a)
  from w have "conflictFiles (conflictResult isBackupSource True ?files)
      = snd (resolveConflicts isBackupSource ?files)"
    by blast
  with a b show ?thesis by simp
qed

section \<open>Clean mode: a failed restore\<close>

lemma error_absorbing: "status s = Error \<Longrightarrow> status (updateReducer s a) = Error"
  by (cases a) (simp_all add: updateReducer_def)

lemma error_absorbing_all: "status s = Error \<Longrightarrow> status (foldl updateReducer s acts) = Error"
  by (induction acts arbitrary: s) (simp_all add: error_absorbing)

lemma preCleanSha_cleanMerge:
  "preCleanSha (snd (cleanMerge ad r)) = Some (currentCommitSha ad r)"
  by (simp add: cleanMerge_def Let_def split: sum.splits)

text \<open>
  C2. In clean mode, let the merge step have run on a repository (recording its commit
  as \<^verbatim>\<open>preCleanSha\<close>) and let the restore of the user content then fail. If the reset to
  that commit succeeds, the step leaves the repository the reset returned, whose commit
  is \<^verbatim>\<open>preCleanSha\<close>, the commit before the update, and only then reports the error:
  the action is \<^verbatim>\<open>ERROR\<close>, the state becomes \<^verbatim>\<open>error\<close> and no later action makes it \<^verbatim>\<open>done\<close>.
\<close>

theorem clean_restore_rollback:
  assumes "status s = CleanRestoring"
      and "mergeResult s = Some (snd (cleanMerge ad r0))"
      and "restoreUserContent ad (backupFile s) (fst (cleanMerge ad r0)) = Inl (e, r1)"
      and "resetHard ad (currentCommitSha ad r0) r1 = Inr r2"
      and "currentCommitSha ad r2 = currentCommitSha ad r0"
  shows "preCleanSha (snd (cleanMerge ad r0)) = Some (currentCommitSha ad r0)
       \<and> cleanRestore ad s (fst (cleanMerge ad r0)) = (r2, ERROR e)
       \<and> currentCommitSha ad (fst (cleanRestore ad s (fst (cleanMerge ad r0))))
           = currentCommitSha ad r0
       \<and> status (updateReducer s (snd (cleanRestore ad s (fst (cleanMerge ad r0))))) = Error
       \<and> (\<forall>acts. status (foldl updateReducer
                    (updateReducer s (snd (cleanRestore ad s (fst (cleanMerge ad r0))))) acts)
                  \<noteq> Done)"
proof -
  note sha = preCleanSha_cleanMerge [of ad r0]
  have cr: "cleanRestore ad s (fst (cleanMerge ad r0)) = (r2, ERROR e)"
    using assms(2-4) sha by (simp add: cleanRestore_def)
  have st: "status (updateReducer s (ERROR e)) = Error"
    by (simp add: reducer_ERROR)
  have "status (foldl updateReducer (updateReducer s (ERROR e)) acts) = Error" for acts
    using st by (rule error_absorbing_all)
  then have nd: "\<forall>acts. status (foldl updateReducer (updateReducer s (ERROR e)) acts) \<noteq> Done"
    by simp
  from sha cr st nd assms(5) show ?thesis by simp
qed

theorem clean_restore_rollback_witness:
  "status cleanRestoringState = CleanRestoring
   \<and> currentCommitSha toyAdapter toyRepo = ''abc123''
   \<and> currentCommitSha toyAdapter (fst (cleanMerge toyAdapter toyRepo)) = ''f00d''
   \<and> currentCommitSha toyAdapter
        (fst (cleanRestore toyAdapter cleanRestoringState (fst (cleanMerge toyAdapter toyRepo))))
       = ''abc123''
   \<and> snd (cleanRestore toyAdapter cleanRestoringState (fst (cleanMerge toyAdapter toyRepo)))
       = ERROR ''Invalid backup manifest''"
proof -
  have h1: "status cleanRestoringState = CleanRestoring"
    by (simp add: cleanRestoringState_def)
  have h2: "mergeResult cleanRestoringState = Some (snd (cleanMerge toyAdapter toyRepo))"
    by (simp add: cleanRestoringState_def)
  have m: "fst (cleanMerge toyAdapter toyRepo) = (''f00d'', [''src/layouts/Layout.astro (upstream)''])"
    by (simp add: cleanMerge_def toyAdapter_def Let_def)
  have h3: "restoreUserContent toyAdapter (backupFile cleanRestoringState)
              (fst (cleanMerge toyAdapter toyRepo))
            = Inl (''Invalid backup manifest'',
                   (''f00d'', [''config/site.yaml'', ''src/layouts/Layout.astro (upstream)'']))"
    by (simp add: m) (simp add: toyAdapter_def)
  have c0: "currentCommitSha toyAdapter toyRepo = ''abc123''"
    by (simp add: toyAdapter_def toyRepo_def)
  have h4: "resetHard toyAdapter (currentCommitSha toyAdapter toyRepo)
              (''f00d'', [''config/site.yaml'', ''src/layouts/Layout.astro (upstream)''])
            = Inr (''abc123'', [''src/layouts/Layout.astro'', ''src/content/blog/hello.md''])"
    by (simp add: c0) (simp add: toyAdapter_def)
  have h5: "currentCommitSha toyAdapter
              (''abc123'', [''src/layouts/Layout.astro'', ''src/content/blog/hello.md''])
            = currentCommitSha toyAdapter toyRepo"
    by (simp add: toyAdapter_def toyRepo_def)
  have c1: "currentCommitSha toyAdapter (fst (cleanMerge toyAdapter toyRepo)) = ''f00d''"
    by (simp add: m) (simp add: toyAdapter_def)
  note w = clean_restore_rollback [OF h1 h2 h3 h4 h5]
  from w have a: "currentCommitSha toyAdapter
        (fst (cleanRestore toyAdapter cleanRestoringState (fst (cleanMerge toyAdapter toyRepo))))
       = currentCommitSha toyAdapter toyRepo"
    by blast
  from w have "cleanRestore toyAdapter cleanRestoringState (fst (cleanMerge toyAdapter toyRepo))
       = ((''abc123'', [''src/layouts/Layout.astro'', ''src/content/blog/hello.md'']),
          ERROR ''Invalid backup manifest'')"
    by blast
  then have b: "snd (cleanRestore toyAdapter cleanRestoringState (fst (cleanMerge toyAdapter toyRepo)))
       = ERROR ''Invalid backup manifest''"
    by simp
  from h1 c0 c1 a b show ?thesis by simp
qed

section \<open>Restore: dry run together with force\<close>

text \<open>
  C9. The confirmation of a dry run invokes only \<^verbatim>\<open>getRestorePreview\<close>, but the force
  effect does not look at \<^verbatim>\<open>dryRun\<close>: started with both flags the screen shows no prompt,
  invokes \<^verbatim>\<open>restoreBackup\<close> on mount, lists the restored paths and still says that this
  is a preview and no files were modified.
\<close>

theorem dry_run_force_restores:
  "RestoreAppProps.dryRun dryRunForced \<and> RestoreAppProps.force dryRunForced
   \<and> handleConfirm dryRunForced restoreWorks ''backups/backup-2026-01-01-full.tar.gz''
       = [RestoreInvoke (Call_getRestorePreview ''backups/backup-2026-01-01-full.tar.gz''),
          SetRestoredFiles [PreviewItem \<lparr>path = ''src/content/blog'', fileCount = 12\<rparr>],
          SetStatus RestoreDone, RestoreStartTimer]
   \<and> restoreCalls (mountRestoreApp dryRunForced restoreWorks)
       = [Call_restoreBackup ''backups/backup-2026-01-01-full.tar.gz'']
   \<and> RestoreApp.status (mountRestoreApp dryRunForced restoreWorks) = RestoreDone
   \<and> RestoreApp.restoredFiles (mountRestoreApp dryRunForced restoreWorks)
       = [RestoredPath ''src/content/blog'']
   \<and> restoreHandler dryRunForced restoreWorks
         (mountRestoreApp dryRunForced restoreWorks) RestoreConfirmYes = None
   \<and> doneTitle dryRunForced = ''Preview Mode''
   \<and> doneNotice dryRunForced = Some ''This is a preview, no files were modified.''"
  by code_simp

end
